theory Spec2Isabelle
  imports Complex_Main "HOL-Library.Sublist" "HOL-Library.Char_ord" "HOL-Library.List_Lexorder"
begin

section \<open>Raw tokens\<close>

text \<open>
  A raw JSON token is the byte slice \<^verbatim>\<open>data []byte\<close> that encoding/json hands to an
  \<^verbatim>\<open>UnmarshalJSON\<close> method.  Go strings and byte slices are both byte sequences, so both are
  \<open>string\<close> here.  \<open>squote\<close> and \<open>dquote\<close> are the characters \<^verbatim>\<open>'\''\<close> and \<^verbatim>\<open>'"'\<close>
  of \<^verbatim>\<open>unquote\<close>.
\<close>

type_synonym bytes = string

definition null_lit :: bytes where
  "null_lit = ''null''"

definition squote :: char where
  "squote = CHR 0x27"

definition dquote :: char where
  "dquote = CHR 0x22"

text \<open>
  \<^verbatim>\<open>unquote\<close> (summary.go): the slice \<^verbatim>\<open>data[1 : len(data)-1]\<close> when the first and last byte
  are the same quote character and there are at least two bytes, else the data unchanged.
\<close>

definition unquote :: "bytes \<Rightarrow> string" where
  "unquote data =
     (if length data > 1 \<and> data ! 0 = data ! (length data - 1)
         \<and> (data ! 0 = squote \<or> data ! 0 = dquote)
      then drop 1 (take (length data - 1) data)
      else data)"

section \<open>The number parsers of package strconv\<close>

text \<open>
  \<^verbatim>\<open>qint.UnmarshalJSON\<close> calls \<^verbatim>\<open>strconv.Atoi\<close>, which is \<^verbatim>\<open>ParseInt(s, 10, 0)\<close> with the
  function name of the error replaced (its fast path for short strings computes the same
  result).  The model follows the library's code on a 64-bit platform, with the unsigned
  64-bit accumulator as an integer and the overflow checks written out: an optional sign, then
  \<^verbatim>\<open>ParseUint\<close>'s loop over the bytes, which stops at the first byte that is not a decimal
  digit (syntax error) or at the first overflow of 64 bits (range error), whichever comes
  first; then the signed range check.  The error is \<^verbatim>\<open>*strconv.NumError\<close> with its fields
  \<^verbatim>\<open>Func\<close>, \<^verbatim>\<open>Num\<close> (the string that was parsed) and \<^verbatim>\<open>Err\<close>.
\<close>

datatype num_err = ErrSyntax | ErrRange

datatype NumError = NumError (Func: string) (Num: string) (Err: num_err)

definition isdigit :: "char \<Rightarrow> bool" where
  "isdigit c = (48 \<le> (of_char c :: nat) \<and> (of_char c :: nat) \<le> 57)"

definition digitval :: "char \<Rightarrow> int" where
  "digitval c = of_char c - 48"

definition maxUint64 :: int where
  "maxUint64 = 2 ^ 64 - 1"

fun ParseUint_loop :: "int \<Rightarrow> string \<Rightarrow> num_err + int" where
  "ParseUint_loop n [] = Inr n"
| "ParseUint_loop n (c # cs) =
     (if \<not> isdigit c then Inl ErrSyntax
      else if n \<ge> maxUint64 div 10 + 1 then Inl ErrRange
      else if n * 10 + digitval c > maxUint64 then Inl ErrRange
      else ParseUint_loop (n * 10 + digitval c) cs)"

definition ParseUint :: "string \<Rightarrow> num_err + int" where
  "ParseUint s = (if s = [] then Inl ErrSyntax else ParseUint_loop 0 s)"

definition ParseInt :: "string \<Rightarrow> NumError + int" where
  "ParseInt s =
     (if s = [] then Inl (NumError ''ParseInt'' s ErrSyntax)
      else
        let neg = (hd s = CHR ''-'');
            s1 = (if hd s = CHR ''+'' \<or> hd s = CHR ''-'' then tl s else s)
        in case ParseUint s1 of
             Inl e \<Rightarrow> Inl (NumError ''ParseInt'' s e)
           | Inr un \<Rightarrow>
               if \<not> neg \<and> un \<ge> 2 ^ 63 then Inl (NumError ''ParseInt'' s ErrRange)
               else if neg \<and> un > 2 ^ 63 then Inl (NumError ''ParseInt'' s ErrRange)
               else Inr (if neg then - un else un))"

definition Atoi :: "string \<Rightarrow> NumError + int" where
  "Atoi s =
     (case ParseInt s of
        Inl e \<Rightarrow> Inl (NumError ''Atoi'' (Num e) (Err e))
      | Inr i \<Rightarrow> Inr i)"

section \<open>The nullable scalars \<^verbatim>\<open>qint\<close> and \<^verbatim>\<open>qfloat\<close>\<close>

text \<open>
  \<^verbatim>\<open>type qint struct{ *int }\<close> is a pointer that is nil or points to a number: an
  \<open>int option\<close>.  \<^verbatim>\<open>UnmarshalJSON\<close> has a pointer receiver: the model takes the receiver's
  value before the call and returns the error or its value after the call.  On the token
  \<^verbatim>\<open>null\<close> the method returns without touching the receiver.

  The 64-bit floating-point numbers are a type parameter \<open>'f\<close>, and \<^verbatim>\<open>strconv.ParseFloat(s, 64)\<close>
  is a parameter \<open>pf\<close> of the model.

  The method \<^verbatim>\<open>V\<close> returns an \<^verbatim>\<open>interface{}\<close> for the database driver: the untyped nil, or
  the number.  \<open>iface\<close> holds the dynamic values that \<^verbatim>\<open>writeSummaries\<close> passes to
  \<^verbatim>\<open>stmt.Exec\<close>; the driver stores nil as SQL NULL.
\<close>

type_synonym Time = int

type_synonym qint = "int option"

type_synonym 'f qfloat = "'f option"

datatype 'f iface = VNil | VInt int | VFloat64 'f | VString string | VTime Time

definition qint_UnmarshalJSON :: "qint \<Rightarrow> bytes \<Rightarrow> NumError + qint" where
  "qint_UnmarshalJSON i data =
     (if data = null_lit then Inr i
      else case Atoi (unquote data) of
             Inl err \<Rightarrow> Inl err
           | Inr v \<Rightarrow> Inr (Some v))"

definition qint_V :: "qint \<Rightarrow> 'f iface" where
  "qint_V i = (case i of Some v \<Rightarrow> VInt v | None \<Rightarrow> VNil)"

definition qfloat_UnmarshalJSON ::
  "(string \<Rightarrow> NumError + 'f) \<Rightarrow> 'f qfloat \<Rightarrow> bytes \<Rightarrow> NumError + 'f qfloat" where
  "qfloat_UnmarshalJSON pf f data =
     (if data = null_lit then Inr f
      else case pf (unquote data) of
             Inl err \<Rightarrow> Inl err
           | Inr v \<Rightarrow> Inr (Some v))"

definition qfloat_V :: "'f qfloat \<Rightarrow> 'f iface" where
  "qfloat_V f = (case f of Some v \<Rightarrow> VFloat64 v | None \<Rightarrow> VNil)"

section \<open>The timestamp parser of package time\<close>

text \<open>
  \<^verbatim>\<open>mintime.UnmarshalJSON\<close> calls \<^verbatim>\<open>time.ParseInLocation("2006-01-02 15:04", s, time.UTC)\<close>.
  A \<^verbatim>\<open>time.Time\<close> without a monotonic reading and in UTC is a count of seconds since
  January 1 of year 1, 00:00:00 UTC; its zero value is the count 0.  \<open>Time\<close> is that count.

  The library splits the layout into the pairs (literal prefix, element) of \<open>layout_chunks\<close>
  and consumes the value chunk by chunk: \<^verbatim>\<open>skip\<close> matches the prefix, where a space of the
  layout matches a run of spaces of the value; \<^verbatim>\<open>getnum\<close> reads two digits, or one digit when
  the element is not of fixed width (the hour \<^verbatim>\<open>15\<close> is not); a month, hour or minute out of
  range fails at once, the day of the month is checked at the end against the month's length.
  The error is \<^verbatim>\<open>*time.ParseError\<close>: the value, the layout element and the rest of the value
  where parsing stopped, and what went wrong.
\<close>

datatype std = stdLongYear | stdZeroMonth | stdZeroDay | stdHour | stdZeroMinute

datatype parse_problem = BadValue | OutOfRange string | ExtraText

datatype ParseError =
  ParseError (Value: string) (LayoutElem: string) (ValueElem: string) (Problem: parse_problem)

record civil =
  year :: int
  month :: int
  day :: int
  hour :: int
  minute :: int

definition layout_chunks :: "(string \<times> std) list" where
  "layout_chunks =
     [('''', stdLongYear), (''-'', stdZeroMonth), (''-'', stdZeroDay),
      ('' '', stdHour), ('':'', stdZeroMinute)]"

fun stdstr :: "std \<Rightarrow> string" where
  "stdstr stdLongYear = ''2006''"
| "stdstr stdZeroMonth = ''01''"
| "stdstr stdZeroDay = ''02''"
| "stdstr stdHour = ''15''"
| "stdstr stdZeroMinute = ''04''"

function skip :: "string \<Rightarrow> string \<Rightarrow> string + string" where
  "skip v [] = Inr v"
| "skip v (p # ps) =
     (if p = CHR '' '' then
        (if v \<noteq> [] \<and> hd v \<noteq> CHR '' '' then Inl v
         else skip (dropWhile (\<lambda>c. c = CHR '' '') v) (dropWhile (\<lambda>c. c = CHR '' '') ps))
      else if v = [] \<or> hd v \<noteq> p then Inl v
      else skip (tl v) ps)"
  by pat_completeness auto
termination
  by (relation "measure (\<lambda>(v, p). length p)")
     (auto simp: less_Suc_eq_le length_dropWhile_le)

definition isDigit :: "string \<Rightarrow> nat \<Rightarrow> bool" where
  "isDigit s i = (i < length s \<and> isdigit (s ! i))"

definition getnum :: "string \<Rightarrow> bool \<Rightarrow> (int \<times> string) option" where
  "getnum s fixed =
     (if \<not> isDigit s 0 then None
      else if \<not> isDigit s 1 then
        (if fixed then None else Some (digitval (s ! 0), drop 1 s))
      else Some (digitval (s ! 0) * 10 + digitval (s ! 1), drop 2 s))"

fun decval_from :: "int \<Rightarrow> string \<Rightarrow> int" where
  "decval_from n [] = n"
| "decval_from n (c # cs) = decval_from (n * 10 + digitval c) cs"

definition decval :: "string \<Rightarrow> int" where
  "decval ds = decval_from 0 ds"

text \<open>
  One element of the layout: the result is the problem and the text it is reported at, or the
  fields so far and the rest of the value.
\<close>

fun parse_std :: "std \<Rightarrow> string \<Rightarrow> civil \<Rightarrow> (parse_problem \<times> string) + (civil \<times> string)" where
  "parse_std stdLongYear v c =
     (if length v < 4 \<or> \<not> isDigit v 0 then Inl (BadValue, v)
      else if \<not> list_all isdigit (take 4 v) then Inl (BadValue, v)
      else Inr (c\<lparr>year := decval (take 4 v)\<rparr>, drop 4 v))"
| "parse_std stdZeroMonth v c =
     (case getnum v True of
        None \<Rightarrow> Inl (BadValue, v)
      | Some (m, rest) \<Rightarrow>
          if m \<le> 0 \<or> 12 < m then Inl (OutOfRange ''month'', rest)
          else Inr (c\<lparr>month := m\<rparr>, rest))"
| "parse_std stdZeroDay v c =
     (case getnum v True of
        None \<Rightarrow> Inl (BadValue, v)
      | Some (d, rest) \<Rightarrow> Inr (c\<lparr>day := d\<rparr>, rest))"
| "parse_std stdHour v c =
     (case getnum v False of
        None \<Rightarrow> Inl (BadValue, v)
      | Some (h, rest) \<Rightarrow>
          if h < 0 \<or> 24 \<le> h then Inl (OutOfRange ''hour'', rest)
          else Inr (c\<lparr>hour := h\<rparr>, rest))"
| "parse_std stdZeroMinute v c =
     (case getnum v True of
        None \<Rightarrow> Inl (BadValue, v)
      | Some (mi, rest) \<Rightarrow>
          if mi < 0 \<or> 60 \<le> mi then Inl (OutOfRange ''minute'', rest)
          else Inr (c\<lparr>minute := mi\<rparr>, rest))"

fun parse_chunks ::
  "string \<Rightarrow> (string \<times> std) list \<Rightarrow> string \<Rightarrow> civil \<Rightarrow> ParseError + (civil \<times> string)" where
  "parse_chunks av [] v c = Inr (c, v)"
| "parse_chunks av ((pre, st) # chunks) v c =
     (case skip v pre of
        Inl v' \<Rightarrow> Inl (ParseError av pre v' BadValue)
      | Inr v' \<Rightarrow>
          (case parse_std st v' c of
             Inl (problem, rest) \<Rightarrow> Inl (ParseError av (stdstr st) rest problem)
           | Inr (c', v'') \<Rightarrow> parse_chunks av chunks v'' c'))"

definition isLeap :: "int \<Rightarrow> bool" where
  "isLeap y = (y mod 4 = 0 \<and> (y mod 100 \<noteq> 0 \<or> y mod 400 = 0))"

definition daysBefore :: "int list" where
  "daysBefore = [0, 31, 59, 90, 120, 151, 181, 212, 243, 273, 304, 334, 365]"

definition daysIn :: "int \<Rightarrow> int \<Rightarrow> int" where
  "daysIn m y =
     (if m = 2 \<and> isLeap y then 29
      else daysBefore ! nat m - daysBefore ! nat (m - 1))"

text \<open>
  \<^verbatim>\<open>time.Date(year, month, day, hour, min, 0, 0, time.UTC)\<close> for fields already in range (the
  parser has checked them, so the library's normalisation does nothing).
\<close>

definition Date :: "int \<Rightarrow> int \<Rightarrow> int \<Rightarrow> int \<Rightarrow> int \<Rightarrow> Time" where
  "Date y m d h mi =
     (let y1 = y - 1;
          days = 365 * y1 + y1 div 4 - y1 div 100 + y1 div 400
                 + daysBefore ! nat (m - 1)
                 + (if isLeap y \<and> m \<ge> 3 then 1 else 0)
                 + (d - 1)
      in days * 86400 + h * 3600 + mi * 60)"

definition ParseInLocation_UTC :: "string \<Rightarrow> ParseError + Time" where
  "ParseInLocation_UTC v =
     (case parse_chunks v layout_chunks v
             \<lparr>year = 0, month = - 1, day = - 1, hour = 0, minute = 0\<rparr> of
        Inl e \<Rightarrow> Inl e
      | Inr (c, rest) \<Rightarrow>
          if rest \<noteq> [] then Inl (ParseError v '''' rest ExtraText)
          else if day c < 1 \<or> day c > daysIn (month c) (year c)
          then Inl (ParseError v '''' rest (OutOfRange ''day''))
          else Inr (Date (year c) (month c) (day c) (hour c) (minute c)))"

section \<open>The timestamp \<^verbatim>\<open>mintime\<close>\<close>

text \<open>
  \<^verbatim>\<open>type mintime time.Time\<close>.  As for \<^verbatim>\<open>qint\<close>, the model of \<^verbatim>\<open>UnmarshalJSON\<close> takes the
  receiver's value before the call; \<open>zero_time\<close> is the zero value of a field that no token
  has been decoded into.
\<close>

type_synonym mintime = Time

definition zero_time :: Time where
  "zero_time = 0"

definition mintime_UnmarshalJSON :: "mintime \<Rightarrow> bytes \<Rightarrow> ParseError + mintime" where
  "mintime_UnmarshalJSON t data =
     (if data = null_lit then Inr t
      else case ParseInLocation_UTC (unquote data) of
             Inl err \<Rightarrow> Inl err
           | Inr v \<Rightarrow> Inr v)"

section \<open>Snapshots and hazard records\<close>

text \<open>
  \<^verbatim>\<open>Summary\<close> and \<^verbatim>\<open>Detail\<close> of summary.go, field by field.  The anonymous struct
  \<^verbatim>\<open>Signature\<close> is a record of its own.
\<close>

record 'f Detail =
  ObjectName :: string
  LastRun :: mintime
  H :: "'f qfloat"
  Rating :: qint
  CaDist :: "'f qfloat"
  Moid :: "'f qfloat"
  NeoScore :: qint
  Neo1KmScore :: qint
  PhaScore :: qint
  IeoScore :: qint
  GeocentricScore :: qint
  TisserandScore :: qint
  Unc :: "'f qfloat"
  UncP1 :: "'f qfloat"
  Ra :: string
  Dec :: string
  Elong :: string
  TEphem :: mintime
  Rate :: "'f qfloat"
  NObs :: qint
  Arc :: "'f qfloat"
  VInf :: "'f qfloat"
  RmsN :: "'f qfloat"
  Vmag :: "'f qfloat"

record Signature =
  Source :: string
  Version :: string

record 'f Summary =
  Count :: string
  Signature :: Signature
  Data :: "'f Detail list"

text \<open>
  The 24 arguments of \<^verbatim>\<open>stmt.Exec\<close> in \<^verbatim>\<open>writeSummaries\<close>, in the order of the columns of
  the INSERT statement.
\<close>

definition bind_args :: "'f Detail \<Rightarrow> 'f iface list" where
  "bind_args d =
     [VString (ObjectName d),
      VTime (LastRun d),
      qfloat_V (H d),
      qint_V (Rating d),
      qfloat_V (CaDist d),
      qfloat_V (Moid d),
      qint_V (NeoScore d),
      qint_V (Neo1KmScore d),
      qint_V (PhaScore d),
      qint_V (IeoScore d),
      qint_V (GeocentricScore d),
      qint_V (TisserandScore d),
      qfloat_V (Unc d),
      qfloat_V (UncP1 d),
      VString (Ra d),
      VString (Dec d),
      VString (Elong d),
      VTime (TEphem d),
      qfloat_V (Rate d),
      qint_V (NObs d),
      qfloat_V (Arc d),
      qfloat_V (VInf d),
      qfloat_V (RmsN d),
      qfloat_V (Vmag d)]"

section \<open>The world of one run\<close>

text \<open>
  What a run of the program reads and changes: the cache directory, the clock, the table
  \<^verbatim>\<open>scout\<close> of the database, and a trace of the calls that leave the process (the HTTP
  request, the database calls, the log lines).  The clock is read as whole seconds and stands
  still during one run.

  The cache directory: \<open>dir_exists\<close> is false when \<^verbatim>\<open>os.Stat\<close> reports that it does not
  exist; \<open>dir_fault\<close> is the error of \<^verbatim>\<open>ioutil.ReadDir\<close> when the directory cannot be listed;
  \<open>files\<close> are its entries.  An entry carries what \<^verbatim>\<open>os.FileInfo\<close> tells, its bytes, and
  the error of \<^verbatim>\<open>os.Open\<close> when it cannot be opened.

  The table: \<open>scout\<close> holds the committed rows, each the 24 values bound by one INSERT;
  \<open>tx_rows\<close> holds the rows written through the open transaction \<^verbatim>\<open>tx\<close> and not yet
  committed.
\<close>

datatype log_line =
    NothingToDo
  | UnknownVersionIn string string
  | Replaying int
  | Added int int

datatype event =
    HttpGet string
  | DbConnect
  | DbExecSchema
  | DbPrepare
  | TxBegin
  | StmtExec
  | TxRollback
  | TxCommit
  | DbClose
  | Logged log_line

record cache_file =
  Name :: string
  IsRegular :: bool
  ModTime :: Time
  Content :: bytes
  OpenErr :: "string option"

record 'f world =
  dir_exists :: bool
  dir_fault :: "string option"
  files :: "cache_file list"
  now :: Time
  scout :: "'f iface list list"
  tx_rows :: "'f iface list list"
  trace :: "event list"

text \<open>
  What the surroundings answer during one run, given from outside: the flag \<^verbatim>\<open>--replay\<close>;
  the result of \<^verbatim>\<open>http.Get\<close> (a transport error, or a response whose body is the list of
  results its \<^verbatim>\<open>Read\<close> calls give); the JSON decoder of encoding/json, as its scanner over
  the bytes buffered so far (\<open>scan\<close>, and \<open>ends_at_eof\<close> for a value that is complete only
  because the input ends) and the filling of a fresh \<^verbatim>\<open>Summary\<close> from the bytes of one
  complete value (\<open>unmarshal\<close>, which calls the three \<^verbatim>\<open>UnmarshalJSON\<close> methods above on the
  field tokens); and the failures of the file system and of the database.  \<open>write_fault\<close>
  takes the file's bytes and the bytes to write and answers how many bytes were written before
  the write failed; \<open>exec_fault\<close> takes the number of the INSERT within the run and its
  arguments and answers the error of an execution that fails for a reason other than a key
  conflict.
\<close>

datatype io_error = EOF | ErrUnexpectedEOF | OSError string

type_synonym read_result = "bytes \<times> io_error option"

datatype scan_result = NeedMore | EndAt nat | SyntaxErr string

datatype unmarshal_error = FieldNum NumError | FieldTime ParseError | TypeMismatch string

datatype decode_error = SyntaxError string | ReadError io_error | UnmarshalError unmarshal_error

record response =
  StatusCode :: int
  Status :: string
  Body :: "read_result list"

record 'f env =
  replay :: bool
  http_get :: "string + response"
  scan :: "bytes \<Rightarrow> scan_result"
  ends_at_eof :: "bytes \<Rightarrow> bool"
  unmarshal :: "bytes \<Rightarrow> unmarshal_error + 'f Summary"
  mkdir_fault :: "string option"
  create_fault :: "string option"
  write_fault :: "bytes \<Rightarrow> bytes \<Rightarrow> (nat \<times> string) option"
  connect_fault :: "string option"
  schema_fault :: "string option"
  prepare_fault :: "string option"
  begin_fault :: "string option"
  exec_fault :: "int \<Rightarrow> 'f iface list \<Rightarrow> string option"
  commit_fault :: "string option"

text \<open>The errors \<^verbatim>\<open>Main\<close> returns, one constructor for each \<^verbatim>\<open>fmt.Errorf\<close> format.\<close>

datatype error =
    CacheError string
  | FetchError string
  | BadResponse string
  | DecodeError decode_error
  | UnknownVersion string
  | PlainError string
  | DecodeFileError string decode_error
  | ConnectError string
  | SchemaError string
  | PrepareError string
  | TransactionError string
  | ExecError string
  | CommitFailed string

definition emit :: "event \<Rightarrow> 'f world \<Rightarrow> 'f world" where
  "emit e w = w\<lparr>trace := trace w @ [e]\<rparr>"

section \<open>The ingestion writer\<close>

text \<open>
  \<^verbatim>\<open>writeSummaries\<close> prepares the INSERT with \<^verbatim>\<open>db.Prepare\<close> and executes it with
  \<^verbatim>\<open>stmt.Exec\<close>; the transaction \<^verbatim>\<open>tx\<close> of \<^verbatim>\<open>db.Begin\<close> is used for \<^verbatim>\<open>tx.Rollback\<close> and
  \<^verbatim>\<open>tx.Commit\<close> only.  In database/sql a statement prepared on the \<^verbatim>\<open>*sql.DB\<close> runs on a
  connection of the pool, outside every \<^verbatim>\<open>*sql.Tx\<close> (a statement takes part in a transaction
  only when it is made by \<^verbatim>\<open>tx.Prepare\<close> or \<^verbatim>\<open>tx.Stmt\<close>, or run by \<^verbatim>\<open>tx.Exec\<close>).  So each
  \<^verbatim>\<open>stmt.Exec\<close> is a transaction of its own, committed when it returns: \<open>stmt_Exec\<close> writes to
  the committed rows \<open>scout\<close>, and nothing in this program writes to \<open>tx_rows\<close>.

  The INSERT ends with \<^verbatim>\<open>ON CONFLICT DO NOTHING\<close> and the table's only unique key is
  \<^verbatim>\<open>PRIMARY KEY(object_name, last_run)\<close>, the first two of the 24 values: an INSERT whose key is
  in the table affects no row and is no error.
\<close>

definition conflicts :: "'f iface list \<Rightarrow> 'f iface list list \<Rightarrow> bool" where
  "conflicts args rows = list_ex (\<lambda>r. take 2 r = take 2 args) rows"

definition stmt_Exec ::
  "'f env \<Rightarrow> int \<Rightarrow> 'f iface list \<Rightarrow> 'f world \<Rightarrow> (string + int) \<times> 'f world" where
  "stmt_Exec env k args w =
     (let w1 = emit StmtExec w in
      case exec_fault env k args of
        Some err \<Rightarrow> (Inl err, w1)
      | None \<Rightarrow>
          if conflicts args (scout w1) then (Inr 0, w1)
          else (Inr 1, w1\<lparr>scout := scout w1 @ [args]\<rparr>))"

definition db_Begin :: "'f world \<Rightarrow> 'f world" where
  "db_Begin w = (emit TxBegin w)\<lparr>tx_rows := []\<rparr>"

definition tx_Rollback :: "'f world \<Rightarrow> 'f world" where
  "tx_Rollback w = (emit TxRollback w)\<lparr>tx_rows := []\<rparr>"

definition tx_Commit :: "'f world \<Rightarrow> 'f world" where
  "tx_Commit w = (emit TxCommit w)\<lparr>scout := scout w @ tx_rows w, tx_rows := []\<rparr>"

text \<open>
  The two nested loops of \<^verbatim>\<open>writeSummaries\<close>, with the counters \<^verbatim>\<open>candidates\<close> and
  \<^verbatim>\<open>inserted\<close>; the first error of \<^verbatim>\<open>stmt.Exec\<close> leaves both loops.
\<close>

fun exec_details ::
  "'f env \<Rightarrow> 'f Detail list \<Rightarrow> int \<times> int \<Rightarrow> 'f world \<Rightarrow> (string + int \<times> int) \<times> 'f world" where
  "exec_details env [] ci w = (Inr ci, w)"
| "exec_details env (d # ds) (candidates, inserted) w =
     (case stmt_Exec env (candidates + 1) (bind_args d) w of
        (Inl err, w') \<Rightarrow> (Inl err, w')
      | (Inr n, w') \<Rightarrow> exec_details env ds (candidates + 1, inserted + n) w')"

fun exec_summaries ::
  "'f env \<Rightarrow> 'f Summary list \<Rightarrow> int \<times> int \<Rightarrow> 'f world \<Rightarrow> (string + int \<times> int) \<times> 'f world" where
  "exec_summaries env [] ci w = (Inr ci, w)"
| "exec_summaries env (s # ss) ci w =
     (case exec_details env (Data s) ci w of
        (Inl err, w') \<Rightarrow> (Inl err, w')
      | (Inr ci', w') \<Rightarrow> exec_summaries env ss ci' w')"

text \<open>\<^verbatim>\<open>writeSummaries\<close> from the schema statement on, that is between \<^verbatim>\<open>sqlx.Connect\<close> and the
  deferred \<^verbatim>\<open>db.Close\<close>.\<close>

definition writeSummaries_connected ::
  "'f env \<Rightarrow> 'f Summary list \<Rightarrow> 'f world \<Rightarrow> (error + unit) \<times> 'f world" where
  "writeSummaries_connected env summaries w =
     (let w1 = emit DbExecSchema w in
      case schema_fault env of
        Some err \<Rightarrow> (Inl (SchemaError err), w1)
      | None \<Rightarrow>
          (let w2 = emit DbPrepare w1 in
           case prepare_fault env of
             Some err \<Rightarrow> (Inl (PrepareError err), w2)
           | None \<Rightarrow>
               (let w3 = db_Begin w2 in
                case begin_fault env of
                  Some err \<Rightarrow> (Inl (TransactionError err), w3)
                | None \<Rightarrow>
                    (case exec_summaries env summaries (0, 0) w3 of
                       (Inl err, w4) \<Rightarrow> (Inl (ExecError err), tx_Rollback w4)
                     | (Inr (candidates, inserted), w4) \<Rightarrow>
                         (case commit_fault env of
                            Some err \<Rightarrow> (Inl (CommitFailed err), emit TxCommit w4)
                          | None \<Rightarrow>
                              (Inr (),
                               emit (Logged (Added inserted (candidates - inserted)))
                                 (tx_Commit w4)))))))"

definition writeSummaries ::
  "'f env \<Rightarrow> 'f Summary list \<Rightarrow> 'f world \<Rightarrow> (error + unit) \<times> 'f world" where
  "writeSummaries env summaries w =
     (let w1 = emit DbConnect w in
      case connect_fault env of
        Some err \<Rightarrow> (Inl (ConnectError err), w1)
      | None \<Rightarrow>
          (case writeSummaries_connected env summaries w1 of
             (r, w2) \<Rightarrow> (r, emit DbClose w2)))"

section \<open>The snapshot cache\<close>

text \<open>
  \<^verbatim>\<open>ioutil.ReadDir\<close> returns the entries sorted by file name.  \<^verbatim>\<open>cacheModifiedSince\<close> is the
  loop of main.go over them; \<^verbatim>\<open>fi.ModTime().After(t)\<close> is the strict comparison.
\<close>

definition ReadDir :: "'f world \<Rightarrow> string + cache_file list" where
  "ReadDir w =
     (case dir_fault w of
        Some err \<Rightarrow> Inl err
      | None \<Rightarrow> Inr (sort_key Name (files w)))"

fun modified_since :: "Time \<Rightarrow> cache_file list \<Rightarrow> bool" where
  "modified_since t [] = False"
| "modified_since t (fi # fis) =
     (if \<not> IsRegular fi then modified_since t fis
      else if ModTime fi > t then True
      else modified_since t fis)"

definition cacheModifiedSince :: "Time \<Rightarrow> 'f world \<Rightarrow> string + bool" where
  "cacheModifiedSince t w =
     (if \<not> dir_exists w then Inr False
      else case ReadDir w of
             Inl err \<Rightarrow> Inl err
           | Inr fis \<Rightarrow> Inr (modified_since t fis))"

text \<open>
  \<^verbatim>\<open>newCacheFile\<close>: \<^verbatim>\<open>os.MkdirAll\<close> when the directory does not exist, then \<^verbatim>\<open>os.OpenFile\<close> with
  \<^verbatim>\<open>O_RDWR|O_CREATE|O_TRUNC\<close> on the name \<^verbatim>\<open>fmt.Sprintf("%d.json", time.Now().Unix())\<close>.
  \<open>itoa\<close> is the format \<^verbatim>\<open>%d\<close>; \<^verbatim>\<open>Unix()\<close> counts from 1970, which is 62135596800 seconds
  after the zero of \<open>Time\<close>.  Opening creates an empty regular file, or empties the regular
  file of that name; an entry of that name that is not a regular file makes it fail.  The
  result is the name, which stands for the open file handle.
\<close>

definition digit_char :: "int \<Rightarrow> char" where
  "digit_char n = ''0123456789'' ! nat n"

function digits_of :: "int \<Rightarrow> string" where
  "digits_of n =
     (if n < 10 then [digit_char n]
      else digits_of (n div 10) @ [digit_char (n mod 10)])"
  by pat_completeness auto
termination
  by (relation "measure nat") auto

declare digits_of.simps [simp del]

definition itoa :: "int \<Rightarrow> string" where
  "itoa i = (if i < 0 then CHR ''-'' # digits_of (- i) else digits_of i)"

definition Unix :: "Time \<Rightarrow> int" where
  "Unix t = t - 62135596800"

definition MkdirAll :: "'f env \<Rightarrow> 'f world \<Rightarrow> string option \<times> 'f world" where
  "MkdirAll env w =
     (case mkdir_fault env of
        Some err \<Rightarrow> (Some err, w)
      | None \<Rightarrow> (None, w\<lparr>dir_exists := True, dir_fault := None, files := []\<rparr>))"

definition OpenFile_create :: "'f env \<Rightarrow> string \<Rightarrow> 'f world \<Rightarrow> (string + string) \<times> 'f world" where
  "OpenFile_create env name w =
     (case create_fault env of
        Some err \<Rightarrow> (Inl err, w)
      | None \<Rightarrow>
          if list_ex (\<lambda>f. Name f = name \<and> \<not> IsRegular f) (files w)
          then (Inl ''not a regular file'', w)
          else if list_ex (\<lambda>f. Name f = name) (files w)
          then (Inr name,
                w\<lparr>files := map (\<lambda>f. if Name f = name
                                      then f\<lparr>ModTime := now w, Content := []\<rparr> else f)
                                (files w)\<rparr>)
          else (Inr name,
                w\<lparr>files := files w @
                   [\<lparr>Name = name, IsRegular = True, ModTime = now w, Content = [],
                     OpenErr = None\<rparr>]\<rparr>))"

definition newCacheFile :: "'f env \<Rightarrow> 'f world \<Rightarrow> (string + string) \<times> 'f world" where
  "newCacheFile env w =
     (case (if \<not> dir_exists w then MkdirAll env w else (None, w)) of
        (Some err, w') \<Rightarrow> (Inl err, w')
      | (None, w') \<Rightarrow> OpenFile_create env (itoa (Unix (now w')) @ ''.json'') w')"

text \<open>
  \<^verbatim>\<open>(*os.File).Write\<close> on the cache file: the bytes are appended; when the write fails, the
  bytes written before the failure are appended and their count is returned with the error
  (a failed write has written less than all its bytes).
\<close>

definition file_content :: "string \<Rightarrow> 'f world \<Rightarrow> bytes" where
  "file_content name w =
     (case find (\<lambda>f. Name f = name) (files w) of
        Some f \<Rightarrow> Content f
      | None \<Rightarrow> [])"

definition append_file :: "string \<Rightarrow> bytes \<Rightarrow> 'f world \<Rightarrow> 'f world" where
  "append_file name bs w =
     w\<lparr>files := map (\<lambda>f. if Name f = name
                           then f\<lparr>ModTime := now w, Content := Content f @ bs\<rparr> else f)
                     (files w)\<rparr>"

definition File_Write ::
  "'f env \<Rightarrow> string \<Rightarrow> bytes \<Rightarrow> 'f world \<Rightarrow> (nat \<times> string option) \<times> 'f world" where
  "File_Write env name p w =
     (case write_fault env (file_content name w) p of
        Some (k, err) \<Rightarrow>
          (let n = min k (length p - 1)
           in ((n, Some err), append_file name (take n p) w))
      | None \<Rightarrow> ((length p, None), append_file name p w))"

section \<open>Readers, the tee and the JSON decoder\<close>

text \<open>
  An \<^verbatim>\<open>io.Reader\<close> is a response body or an opened file, given by the results of its
  successive \<^verbatim>\<open>Read\<close> calls (after them every \<^verbatim>\<open>Read\<close> returns no bytes and \<^verbatim>\<open>io.EOF\<close>), or
  \<^verbatim>\<open>io.TeeReader(r, w)\<close> with \<^verbatim>\<open>w\<close> the cache file.  The tee's \<^verbatim>\<open>Read\<close> is the library's:

  \<^verbatim>\<open>n, err = t.r.Read(p); if n > 0 { if n, err := t.w.Write(p[:n]); err != nil { return n, err } }; return\<close>

  so after a failed write it returns the count of bytes written and the write's error.
\<close>

datatype reader = BodyReader "read_result list" | TeeReader reader string

fun Read :: "'f env \<Rightarrow> reader \<Rightarrow> 'f world \<Rightarrow> read_result \<times> reader \<times> 'f world" where
  "Read env (BodyReader []) w = (([], Some EOF), BodyReader [], w)"
| "Read env (BodyReader (r # rs)) w = (r, BodyReader rs, w)"
| "Read env (TeeReader r name) w =
     (case Read env r w of
        ((p, err), r', w') \<Rightarrow>
          if p \<noteq> [] then
            (case File_Write env name p w' of
               ((n, Some werr), w'') \<Rightarrow> ((take n p, Some (OSError werr)), TeeReader r' name, w'')
             | ((n, None), w'') \<Rightarrow> ((p, err), TeeReader r' name, w''))
          else ((p, err), TeeReader r' name, w'))"

fun remaining :: "reader \<Rightarrow> nat" where
  "remaining (BodyReader rs) = length rs"
| "remaining (TeeReader r name) = remaining r"

definition os_Open :: "cache_file \<Rightarrow> string + reader" where
  "os_Open fi =
     (case OpenErr fi of
        Some err \<Rightarrow> Inl err
      | None \<Rightarrow> Inr (BodyReader [(Content fi, None)]))"

text \<open>
  \<^verbatim>\<open>(*json.Decoder).Decode\<close> first reads one whole value into its buffer
  (\<^verbatim>\<open>readValue\<close>), then unmarshals the value's bytes.  \<^verbatim>\<open>readValue\<close> scans the bytes it has; when
  the value is not complete it looks at the error of the last \<^verbatim>\<open>Read\<close> (the library delays
  that error until the bytes that came with it are scanned), and when there is none it calls
  \<^verbatim>\<open>Read\<close> again (\<^verbatim>\<open>refill\<close>).  \<open>buf\<close> is every byte the decoder has received; the result
  is the error or the length of the value, with the buffer and the world at the end.
\<close>

definition isSpace :: "char \<Rightarrow> bool" where
  "isSpace c = (c = CHR '' '' \<or> c = CHR 0x09 \<or> c = CHR 0x0D \<or> c = CHR 0x0A)"

function readValue ::
  "'f env \<Rightarrow> bytes \<Rightarrow> io_error option \<Rightarrow> reader \<Rightarrow> 'f world
     \<Rightarrow> (decode_error + nat) \<times> bytes \<times> 'f world" where
  "readValue env buf err r w =
     (case scan env buf of
        EndAt n \<Rightarrow> (Inr n, buf, w)
      | SyntaxErr msg \<Rightarrow> (Inl (SyntaxError msg), buf, w)
      | NeedMore \<Rightarrow>
          (case err of
             Some e \<Rightarrow>
               if e = EOF then
                 (if ends_at_eof env buf then (Inr (length buf), buf, w)
                  else if list_ex (\<lambda>c. \<not> isSpace c) buf
                  then (Inl (ReadError ErrUnexpectedEOF), buf, w)
                  else (Inl (ReadError EOF), buf, w))
               else (Inl (ReadError e), buf, w)
           | None \<Rightarrow>
               (case Read env r w of
                  ((p, err'), r', w') \<Rightarrow> readValue env (buf @ p) err' r' w')))"
  by pat_completeness auto
termination
proof (relation "measure (\<lambda>(env, buf, err, r, w).
                   2 * remaining r + (if err = None then 1 else 0))", goal_cases)
  case 1
  show ?case by simp
next
  case (2 env buf err r w x y p err' r' w')
  have shrink: "remaining (fst (snd (Read env r w))) \<le> remaining r
      \<and> (snd (fst (Read env r w)) = None \<longrightarrow> remaining (fst (snd (Read env r w))) < remaining r)"
    for r :: reader and w :: "'a world"
  proof (induction r arbitrary: w)
    case (BodyReader rs)
    show ?case by (cases rs) auto
  next
    case (TeeReader r name)
    show ?case
      using TeeReader [of w]
      by (auto split: prod.splits option.splits)
  qed
  from 2 have "Read env r w = ((p, err'), r', w')"
    by simp
  with shrink [of r w] \<open>err = None\<close> show ?case
    by auto
qed

declare readValue.simps [simp del]

definition Decode ::
  "'f env \<Rightarrow> reader \<Rightarrow> 'f world \<Rightarrow> (decode_error + 'f Summary) \<times> 'f world" where
  "Decode env r w =
     (case readValue env [] None r w of
        (Inl e, buf, w') \<Rightarrow> (Inl e, w')
      | (Inr n, buf, w') \<Rightarrow>
          (case unmarshal env (take n buf) of
             Inl e \<Rightarrow> (Inl (UnmarshalError e), w')
           | Inr summary \<Rightarrow> (Inr summary, w')))"

section \<open>Replay and the live fetch\<close>

text \<open>
  The loop of \<^verbatim>\<open>replayFromCache\<close> over the directory entries, with the summaries collected so
  far.
\<close>

fun replay_files ::
  "'f env \<Rightarrow> cache_file list \<Rightarrow> 'f Summary list \<Rightarrow> 'f world
     \<Rightarrow> (error + 'f Summary list) \<times> 'f world" where
  "replay_files env [] summaries w = (Inr summaries, w)"
| "replay_files env (fi # fis) summaries w =
     (if \<not> IsRegular fi then replay_files env fis summaries w
      else
        (case os_Open fi of
           Inl err \<Rightarrow> (Inl (PlainError err), w)
         | Inr f \<Rightarrow>
             (case Decode env f w of
                (Inl err, w') \<Rightarrow> (Inl (DecodeFileError (Name fi) err), w')
              | (Inr summary, w') \<Rightarrow>
                  if Version (Signature summary) \<noteq> ''1.2''
                  then replay_files env fis summaries
                         (emit (Logged (UnknownVersionIn (Name fi) (Version (Signature summary)))) w')
                  else replay_files env fis (summaries @ [summary]) w')))"

definition replayFromCache :: "'f env \<Rightarrow> 'f world \<Rightarrow> (error + unit) \<times> 'f world" where
  "replayFromCache env w =
     (if \<not> dir_exists w then (Inr (), w)
      else
        (case ReadDir w of
           Inl err \<Rightarrow> (Inl (PlainError err), w)
         | Inr fis \<Rightarrow>
             (case replay_files env fis [] w of
                (Inl err, w') \<Rightarrow> (Inl err, w')
              | (Inr summaries, w') \<Rightarrow>
                  writeSummaries env summaries
                    (emit (Logged (Replaying (int (length summaries)))) w'))))"

definition minTimeBetweenFetches :: int where
  "minTimeBetweenFetches = 15 * 60"

definition url :: string where
  "url = ''https://ssd-api.jpl.nasa.gov/scout.api''"

definition Main :: "'f env \<Rightarrow> 'f world \<Rightarrow> (error + unit) \<times> 'f world" where
  "Main env w =
     (if replay env then replayFromCache env w
      else
        (case cacheModifiedSince (now w - minTimeBetweenFetches) w of
           Inl err \<Rightarrow> (Inl (CacheError err), w)
         | Inr recent \<Rightarrow>
             if recent then (Inr (), emit (Logged NothingToDo) w)
             else
               (let w1 = emit (HttpGet url) w in
                case http_get env of
                  Inl err \<Rightarrow> (Inl (FetchError err), w1)
                | Inr res \<Rightarrow>
                    if StatusCode res \<noteq> 200 then (Inl (BadResponse (Status res)), w1)
                    else
                      (case newCacheFile env w1 of
                         (Inl err, w2) \<Rightarrow> (Inl (CacheError err), w2)
                       | (Inr cacheFile, w2) \<Rightarrow>
                           (case Decode env (TeeReader (BodyReader (Body res)) cacheFile) w2 of
                              (Inl err, w3) \<Rightarrow> (Inl (DecodeError err), w3)
                            | (Inr summary, w3) \<Rightarrow>
                                if Version (Signature summary) \<noteq> ''1.2''
                                then (Inl (UnknownVersion (Version (Signature summary))), w3)
                                else writeSummaries env [summary] w3)))))"

section \<open>Values for the examples\<close>

text \<open>
  The zero value of \<^verbatim>\<open>Detail\<close> (what a record of the payload decodes to when it has no
  fields), a version 1.2 snapshot of given records, an environment in which nothing fails, and a
  world with no cache directory and an empty table.  \<open>smallint_fault\<close> is an example of
  \<open>exec_fault\<close>: the schema of summary.go declares the columns at positions 3, 6 to 11 and
  19 of the arguments as SMALLINT, and the store refuses a value outside 16 bits.
\<close>

definition zero_Detail :: "'f Detail" where
  "zero_Detail =
     \<lparr>ObjectName = [], LastRun = zero_time, H = None, Rating = None, CaDist = None,
      Moid = None, NeoScore = None, Neo1KmScore = None, PhaScore = None, IeoScore = None,
      GeocentricScore = None, TisserandScore = None, Unc = None, UncP1 = None, Ra = [],
      Dec = [], Elong = [], TEphem = zero_time, Rate = None, NObs = None, Arc = None,
      VInf = None, RmsN = None, Vmag = None\<rparr>"

definition named :: "string \<Rightarrow> real Detail" where
  "named n = zero_Detail\<lparr>ObjectName := n\<rparr>"

definition snapshot :: "'f Detail list \<Rightarrow> 'f Summary" where
  "snapshot ds =
     \<lparr>Count = itoa (int (length ds)),
      Signature = \<lparr>Source = ''NASA/JPL Scout API'', Version = ''1.2''\<rparr>,
      Data = ds\<rparr>"

definition quiet_env :: "'f env" where
  "quiet_env =
     \<lparr>replay = False, http_get = Inl ''no route to host'',
      scan = (\<lambda>b. NeedMore), ends_at_eof = (\<lambda>b. False),
      unmarshal = (\<lambda>b. Inl (TypeMismatch [])),
      mkdir_fault = None, create_fault = None, write_fault = (\<lambda>cur p. None),
      connect_fault = None, schema_fault = None, prepare_fault = None, begin_fault = None,
      exec_fault = (\<lambda>k args. None), commit_fault = None\<rparr>"

definition empty_world :: "Time \<Rightarrow> 'f world" where
  "empty_world t =
     \<lparr>dir_exists = False, dir_fault = None, files = [], now = t, scout = [], tx_rows = [],
      trace = []\<rparr>"

definition smallint_fault :: "int \<Rightarrow> 'f iface list \<Rightarrow> string option" where
  "smallint_fault k args =
     (if list_ex (\<lambda>i. case args ! i of VInt v \<Rightarrow> v < - 32768 \<or> 32767 < v | _ \<Rightarrow> False)
           [3, 6, 7, 8, 9, 10, 11, 19]
      then Some ''smallint out of range'' else None)"

definition five :: "real Summary" where
  "five = snapshot [named ''A'', named ''B'', named ''C'', named ''D'', named ''E'']"

definition two_known :: "real world" where
  "two_known = (empty_world 0)\<lparr>scout := [bind_args (named ''B''), bind_args (named ''D'')]\<rparr>"

text \<open>
  Used to state what a live run leaves behind: some regular file of the cache directory was
  modified at the present reading of the clock.
\<close>

definition fresh_file :: "'f world \<Rightarrow> bool" where
  "fresh_file w \<longleftrightarrow> (\<exists>f\<in>set (files w). IsRegular f \<and> ModTime f = now w)"

text \<open>
  For the examples of the live path: a token or key in double quotes; a scanner for JSON
  objects whose strings have no escapes (it follows the braces, as the library's scanner does
  on such input); a feed payload with no records that declares a given version; an
  \<open>unmarshal\<close> that knows the payloads of versions 1.2 and 1.1; an environment whose HTTP
  response is 200 with the given chunks as body; the instant 2025-01-01 00:00 UTC; the world
  after a live run at that instant has captured the given bytes; and a cache directory that
  holds a subdirectory only.
\<close>

definition quoted :: "string \<Rightarrow> bytes" where
  "quoted s = dquote # s @ [dquote]"

fun object_scan_from :: "nat \<Rightarrow> nat \<Rightarrow> bool \<Rightarrow> bytes \<Rightarrow> scan_result" where
  "object_scan_from i depth in_string [] = NeedMore"
| "object_scan_from i depth in_string (c # cs) =
     (if in_string then object_scan_from (i + 1) depth (c \<noteq> dquote) cs
      else if c = dquote then
        (if depth = 0 then SyntaxErr ''invalid character'' else object_scan_from (i + 1) depth True cs)
      else if c = CHR ''{'' then object_scan_from (i + 1) (depth + 1) False cs
      else if c = CHR ''}'' then
        (if depth = 0 then SyntaxErr ''invalid character''
         else if depth = 1 then EndAt (i + 1)
         else object_scan_from (i + 1) (depth - 1) False cs)
      else if depth = 0 \<and> \<not> isSpace c then SyntaxErr ''invalid character''
      else object_scan_from (i + 1) depth False cs)"

definition object_scan :: "bytes \<Rightarrow> scan_result" where
  "object_scan b = object_scan_from 0 0 False b"

definition payload :: "string \<Rightarrow> bytes" where
  "payload v =
     ''{'' @ quoted ''signature'' @ '':{'' @ quoted ''version'' @ '':'' @ quoted v @ ''},''
       @ quoted ''data'' @ '':[]}''"

definition versioned :: "string \<Rightarrow> 'f Summary" where
  "versioned v = \<lparr>Count = [], Signature = \<lparr>Source = [], Version = v\<rparr>, Data = []\<rparr>"

definition unmarshal_payload :: "bytes \<Rightarrow> unmarshal_error + 'f Summary" where
  "unmarshal_payload b =
     (if b = payload ''1.2'' then Inr (versioned ''1.2'')
      else if b = payload ''1.1'' then Inr (versioned ''1.1'')
      else Inl (TypeMismatch ''not one of the example payloads''))"

definition feed_env :: "bytes list \<Rightarrow> real env" where
  "feed_env chunks =
     quiet_env
       \<lparr>http_get := Inr \<lparr>StatusCode = 200, Status = ''200 OK'',
                          Body = map (\<lambda>c. (c, None)) chunks\<rparr>,
        scan := object_scan, unmarshal := unmarshal_payload\<rparr>"

definition t0 :: Time where
  "t0 = Date 2025 1 1 0 0"

definition cached :: "bytes \<Rightarrow> real world" where
  "cached content =
     (empty_world t0)
       \<lparr>dir_exists := True,
        files := [\<lparr>Name = ''1735689600.json'', IsRegular = True, ModTime = t0,
                   Content = content, OpenErr = None\<rparr>],
        trace := [HttpGet url]\<rparr>"

definition only_subdir :: "real world" where
  "only_subdir =
     (empty_world t0)
       \<lparr>dir_exists := True,
        files := [\<lparr>Name = ''old'', IsRegular = False, ModTime = t0, Content = [],
                   OpenErr = None\<rparr>]\<rparr>"

text \<open>
  An environment whose response is the version 1.2 payload and a newline in one chunk, on a
  disk that has room for the payload only; and one whose response ends after 20 bytes.
\<close>

definition full_disk_env :: "real env" where
  "full_disk_env =
     (feed_env [payload ''1.2'' @ [CHR 0x0A]])
       \<lparr>write_fault := (\<lambda>cur p. Some (length (payload ''1.2''), ''no space left on device''))\<rparr>"

definition cut_env :: "real env" where
  "cut_env = feed_env [take 20 (payload ''1.2'')]"

text \<open>
  Used to state the replay: what one pass of the loop of \<^verbatim>\<open>replayFromCache\<close> gets from a
  regular entry (the error that ends the replay, or the decoded snapshot); whether an entry
  ends the replay; the named snapshots of the regular entries of a listing; those of version
  1.2; and the log lines of the others.
\<close>

definition entry_result :: "'f env \<Rightarrow> 'f world \<Rightarrow> cache_file \<Rightarrow> error + 'f Summary" where
  "entry_result env w fi =
     (case os_Open fi of
        Inl err \<Rightarrow> Inl (PlainError err)
      | Inr f \<Rightarrow>
          (case fst (Decode env f w) of
             Inl err \<Rightarrow> Inl (DecodeFileError (Name fi) err)
           | Inr summary \<Rightarrow> Inr summary))"

definition fails :: "'f env \<Rightarrow> 'f world \<Rightarrow> cache_file \<Rightarrow> bool" where
  "fails env w fi = (IsRegular fi \<and> isl (entry_result env w fi))"

definition snapshots :: "'f env \<Rightarrow> 'f world \<Rightarrow> cache_file list \<Rightarrow> (string \<times> 'f Summary) list" where
  "snapshots env w fis =
     concat (map (\<lambda>fi. case entry_result env w fi of
                          Inr summary \<Rightarrow> [(Name fi, summary)]
                        | Inl err \<Rightarrow> [])
                 (filter IsRegular fis))"

definition accepted :: "(string \<times> 'f Summary) list \<Rightarrow> 'f Summary list" where
  "accepted snaps = map snd (filter (\<lambda>(name, s). Version (Signature s) = ''1.2'') snaps)"

definition skipped_log :: "(string \<times> 'f Summary) list \<Rightarrow> event list" where
  "skipped_log snaps =
     map (\<lambda>(name, s). Logged (UnknownVersionIn name (Version (Signature s))))
         (filter (\<lambda>(name, s). Version (Signature s) \<noteq> ''1.2'') snaps)"

text \<open>
  A regular cache entry; the replay environment; a cache directory with a version 1.2 entry, a
  version 1.1 entry and a subdirectory; and one with a version 1.1 entry and a truncated entry.
\<close>

definition entry :: "string \<Rightarrow> bytes \<Rightarrow> cache_file" where
  "entry name content =
     \<lparr>Name = name, IsRegular = True, ModTime = t0, Content = content, OpenErr = None\<rparr>"

definition replay_env :: "real env" where
  "replay_env = (feed_env [])\<lparr>replay := True\<rparr>"

definition mixed_cache :: "real world" where
  "mixed_cache =
     (empty_world t0)
       \<lparr>dir_exists := True,
        files := [entry ''1735690500.json'' (payload ''1.1''),
                  \<lparr>Name = ''old'', IsRegular = False, ModTime = t0, Content = [], OpenErr = None\<rparr>,
                  entry ''1735689600.json'' (payload ''1.2'')]\<rparr>"

definition broken_cache :: "real world" where
  "broken_cache =
     (empty_world t0)
       \<lparr>dir_exists := True,
        files := [entry ''1735690500.json'' (take 20 (payload ''1.2'')),
                  entry ''1735689600.json'' (payload ''1.1'')]\<rparr>"

section \<open>Helper lemmas\<close>

lemma unquote_null_lit: "unquote null_lit = null_lit"
  by (simp add: unquote_def null_lit_def squote_def dquote_def)

lemma emit_simps [simp]:
  "trace (emit e w) = trace w @ [e]"
  "scout (emit e w) = scout w"
  "tx_rows (emit e w) = tx_rows w"
  "files (emit e w) = files w"
  "dir_exists (emit e w) = dir_exists w"
  "dir_fault (emit e w) = dir_fault w"
  "now (emit e w) = now w"
  by (simp_all add: emit_def)

lemma stmt_Exec_frame:
  assumes "stmt_Exec env k args w = (r, w')"
  shows "trace w' = trace w @ [StmtExec]" "tx_rows w' = tx_rows w" "files w' = files w"
    "dir_exists w' = dir_exists w" "dir_fault w' = dir_fault w" "now w' = now w"
  using assms by (auto simp: stmt_Exec_def Let_def split: option.splits if_splits)

lemma stmt_Exec_ok:
  assumes "stmt_Exec env k args w = (Inr n, w')"
  shows "(n = 0 \<or> n = 1) \<and> int (length (scout w')) = int (length (scout w)) + n"
  using assms by (auto simp: stmt_Exec_def Let_def split: option.splits if_splits)

lemma exec_details_ok:
  "exec_details env ds (c, i) w = (Inr (c', i'), w') \<Longrightarrow>
     c' = c + int (length ds)
     \<and> i' - i = int (length (scout w')) - int (length (scout w))
     \<and> trace w' = trace w @ replicate (length ds) StmtExec
     \<and> tx_rows w' = tx_rows w"
proof (induction ds arbitrary: c i w)
  case Nil
  then show ?case by simp
next
  case (Cons d ds)
  from Cons.prems obtain n w1 where
    step: "stmt_Exec env (c + 1) (bind_args d) w = (Inr n, w1)"
    and rest: "exec_details env ds (c + 1, i + n) w1 = (Inr (c', i'), w')"
    by (auto split: prod.splits sum.splits)
  from Cons.IH [OF rest] stmt_Exec_ok [OF step] stmt_Exec_frame [OF step]
  show ?case by (simp add: replicate_append_same)
qed

lemma exec_summaries_ok:
  "exec_summaries env ss (c, i) w = (Inr (c', i'), w') \<Longrightarrow>
     c' = c + int (length (concat (map Data ss)))
     \<and> i' - i = int (length (scout w')) - int (length (scout w))
     \<and> trace w' = trace w @ replicate (length (concat (map Data ss))) StmtExec
     \<and> tx_rows w' = tx_rows w"
proof (induction ss arbitrary: c i w)
  case Nil
  then show ?case by simp
next
  case (Cons s ss)
  from Cons.prems obtain c1 i1 w1 where
    step: "exec_details env (Data s) (c, i) w = (Inr (c1, i1), w1)"
    and rest: "exec_summaries env ss (c1, i1) w1 = (Inr (c', i'), w')"
    by (auto split: prod.splits sum.splits)
  from Cons.IH [OF rest] exec_details_ok [OF step]
  show ?case by (simp add: replicate_add)
qed

section \<open>The ingestion writer: claims C1 and C6\<close>

lemmas run_defs = writeSummaries_def writeSummaries_connected_def stmt_Exec_def db_Begin_def tx_Rollback_def tx_Commit_def
      emit_def quiet_env_def empty_world_def snapshot_def conflicts_def bind_args_def zero_Detail_def qint_V_def qfloat_V_def Let_def named_def

text \<open>
  C1 (the code fails the claim).  A batch of five new records whose third has a rating that
  does not fit the SMALLINT column: the run rolls back and returns the execution error, and the
  first two records stay in the table, because \<^verbatim>\<open>stmt.Exec\<close> ran outside the transaction.
\<close>

theorem writeSummaries_partial_commit:
  "writeSummaries (quiet_env\<lparr>exec_fault := smallint_fault\<rparr>)
     [snapshot [named ''A'', named ''B'', (named ''C'')\<lparr>Rating := Some 40000\<rparr>, named ''D'', named ''E'']]
     (empty_world 0)
   = (Inl (ExecError ''smallint out of range''),
      (empty_world 0)
        \<lparr>scout := [bind_args (named ''A''), bind_args (named ''B'')],
         trace := [DbConnect, DbExecSchema, DbPrepare, TxBegin, StmtExec, StmtExec, StmtExec,
                   TxRollback, DbClose]\<rparr>)"
  by (simp add: run_defs smallint_fault_def)

lemma writeSummaries_ok_trace:
  assumes "writeSummaries env summaries w = (Inr (), w')"
  shows "trace w' = trace w @ [DbConnect, DbExecSchema, DbPrepare, TxBegin]
            @ replicate (length (concat (map Data summaries))) StmtExec
            @ [TxCommit,
               Logged (Added (int (length (scout w')) - int (length (scout w)))
                        (int (length (concat (map Data summaries)))
                          - (int (length (scout w')) - int (length (scout w))))),
               DbClose]"
proof -
  let ?w3 = "db_Begin (emit DbPrepare (emit DbExecSchema (emit DbConnect w)))"
  from assms obtain c i w4 where
    loop: "exec_summaries env summaries (0, 0) ?w3 = (Inr (c, i), w4)"
    and w': "w' = emit DbClose (emit (Logged (Added i (c - i))) (tx_Commit w4))"
    by (auto simp: writeSummaries_def writeSummaries_connected_def Let_def
             split: option.splits prod.splits sum.splits)
  from exec_summaries_ok [OF loop]
  have "c = int (length (concat (map Data summaries)))"
    and "i = int (length (scout w4)) - int (length (scout w))"
    and "trace w4 = trace ?w3 @ replicate (length (concat (map Data summaries))) StmtExec"
    and "tx_rows w4 = []"
    by (simp_all add: db_Begin_def)
  with w' show ?thesis
    by (simp add: tx_Commit_def db_Begin_def)
qed

lemma stmt_Exec_conflict:
  "exec_fault env k args = None \<Longrightarrow> conflicts args (scout w) \<Longrightarrow>
     stmt_Exec env k args w = (Inr 0, emit StmtExec w)"
  by (simp add: stmt_Exec_def Let_def)

text \<open>
  C6.  When \<^verbatim>\<open>writeSummaries\<close> succeeds, the run made one INSERT per record of the batch and
  committed once, and its log line reports as inserted the number of rows the table gained and
  as duplicates the number of candidates minus that; an INSERT whose composite key is in the
  table is no error, affects 0 rows and leaves the table as it is.
\<close>

theorem writeSummaries_counts:
  "(writeSummaries env summaries w = (Inr (), w') \<longrightarrow>
      (let candidates = int (length (concat (map Data summaries)));
           inserted = int (length (scout w')) - int (length (scout w))
       in trace w' = trace w @ [DbConnect, DbExecSchema, DbPrepare, TxBegin]
                     @ replicate (length (concat (map Data summaries))) StmtExec
                     @ [TxCommit, Logged (Added inserted (candidates - inserted)), DbClose]))
   \<and> (\<forall>k d v. exec_fault env k (bind_args d) = None \<longrightarrow> conflicts (bind_args d) (scout v) \<longrightarrow>
         stmt_Exec env k (bind_args d) v = (Inr 0, emit StmtExec v))"
  using writeSummaries_ok_trace [of env summaries w w'] stmt_Exec_conflict [of env]
  by (simp add: Let_def)

text \<open>Five candidates of which two are in the table: 3 inserted, 2 duplicates ignored.\<close>

theorem writeSummaries_counts_witness:
  "fst (writeSummaries quiet_env [five] two_known) = Inr ()
   \<and> trace (snd (writeSummaries quiet_env [five] two_known))
       = [DbConnect, DbExecSchema, DbPrepare, TxBegin, StmtExec, StmtExec, StmtExec, StmtExec,
          StmtExec, TxCommit, Logged (Added 3 2), DbClose]
   \<and> stmt_Exec quiet_env 2 (bind_args (named ''B'')) two_known = (Inr 0, emit StmtExec two_known)"
proof -
  have run: "writeSummaries quiet_env [five] two_known =
      (Inr (), two_known
        \<lparr>scout := [bind_args (named ''B''), bind_args (named ''D''), bind_args (named ''A''),
                   bind_args (named ''C''), bind_args (named ''E'')],
         trace := [DbConnect, DbExecSchema, DbPrepare, TxBegin, StmtExec, StmtExec, StmtExec,
                   StmtExec, StmtExec, TxCommit, Logged (Added 3 2), DbClose]\<rparr>)"
    by (simp add: run_defs five_def two_known_def)
  have known: "exec_fault (quiet_env :: real env) 2 (bind_args (named ''B'')) = None"
    "conflicts (bind_args (named ''B'')) (scout two_known)"
    by (simp_all add: run_defs two_known_def)
  from writeSummaries_counts [of quiet_env "[five]" two_known
      "snd (writeSummaries quiet_env [five] two_known)"] run known
  show ?thesis
    by (simp add: two_known_def empty_world_def five_def snapshot_def)
qed

section \<open>The cache, the readers and the live path: helper lemmas\<close>

lemma modified_since_iff:
  "modified_since t fis \<longleftrightarrow> (\<exists>f\<in>set fis. IsRegular f \<and> t < ModTime f)"
  by (induction fis) auto

lemma ReadDir_set: "ReadDir w = Inr fis \<Longrightarrow> set fis = set (files w) \<and> dir_fault w = None"
  by (auto simp: ReadDir_def split: option.splits)

lemma cacheModifiedSince_True_iff:
  "cacheModifiedSince t w = Inr True \<longleftrightarrow>
     dir_exists w \<and> (\<exists>fis. ReadDir w = Inr fis \<and> (\<exists>f\<in>set fis. IsRegular f \<and> t < ModTime f))"
  by (auto simp: cacheModifiedSince_def modified_since_iff split: sum.splits)

lemma append_file_frame [simp]:
  "dir_exists (append_file name bs w) = dir_exists w"
  "dir_fault (append_file name bs w) = dir_fault w"
  "now (append_file name bs w) = now w"
  "scout (append_file name bs w) = scout w"
  "tx_rows (append_file name bs w) = tx_rows w"
  "trace (append_file name bs w) = trace w"
  by (simp_all add: append_file_def)

lemma find_map_same:
  assumes "\<And>x. P (g x) = P x"
  shows "find P (map g xs) = map_option g (find P xs)"
  using assms by (induction xs) auto

lemma file_content_append:
  "name \<in> Name ` set (files w) \<Longrightarrow>
     file_content name (append_file name bs w) = file_content name w @ bs"
proof -
  assume "name \<in> Name ` set (files w)"
  then obtain f where f: "find (\<lambda>f. Name f = name) (files w) = Some f"
    by (cases "find (\<lambda>f. Name f = name) (files w)") (auto simp: find_None_iff)
  then have "Name f = name"
    by (auto simp: find_Some_iff)
  with f show ?thesis
    by (simp add: file_content_def append_file_def find_map_same)
qed

lemma names_append_file_map:
  "map Name (files (append_file name bs w)) = map Name (files w)"
  by (auto simp: append_file_def)

lemma names_append_file [simp]:
  "Name ` set (files (append_file name bs w)) = Name ` set (files w)"
  using names_append_file_map [of name bs w]
  by (metis set_map)

lemma fresh_append_file:
  assumes "fresh_file w"
  shows "fresh_file (append_file name bs w)"
proof -
  let ?g = "\<lambda>f. if Name f = name then f\<lparr>ModTime := now w, Content := Content f @ bs\<rparr> else f"
  from assms obtain f where f: "f \<in> set (files w)" "IsRegular f" "ModTime f = now w"
    by (auto simp: fresh_file_def)
  then have "?g f \<in> set (files (append_file name bs w))" "IsRegular (?g f)" "ModTime (?g f) = now w"
    by (auto simp: append_file_def)
  then show ?thesis
    unfolding fresh_file_def by (intro bexI [of _ "?g f"]) simp_all
qed

lemma File_Write_world:
  "File_Write env name p w = (res, w') \<Longrightarrow> \<exists>bs. w' = append_file name bs w"
  by (auto simp: File_Write_def Let_def split: option.splits)

lemma File_Write_frame:
  assumes "File_Write env name p w = (res, w')"
  shows "dir_exists w' = dir_exists w" "dir_fault w' = dir_fault w" "now w' = now w"
    "scout w' = scout w" "tx_rows w' = tx_rows w" "trace w' = trace w"
    "Name ` set (files w') = Name ` set (files w)"
    "fresh_file w \<Longrightarrow> fresh_file w'"
proof -
  from File_Write_world [OF assms] obtain bs where w': "w' = append_file name bs w" ..
  show "dir_exists w' = dir_exists w" "dir_fault w' = dir_fault w" "now w' = now w"
    "scout w' = scout w" "tx_rows w' = tx_rows w" "trace w' = trace w"
    "Name ` set (files w') = Name ` set (files w)"
    by (simp_all add: w')
  show "fresh_file w \<Longrightarrow> fresh_file w'"
    by (simp add: w' fresh_append_file)
qed

lemma File_Write_content:
  assumes "File_Write env name p w = ((n, e), w')" "name \<in> Name ` set (files w)"
  shows "file_content name w' = file_content name w @ (case e of None \<Rightarrow> p | Some x \<Rightarrow> take n p)"
  using assms
  by (auto simp: File_Write_def Let_def file_content_append split: option.splits)

lemma Read_frame:
  "Read env r w = (res, r', w') \<Longrightarrow>
     dir_exists w' = dir_exists w \<and> dir_fault w' = dir_fault w \<and> now w' = now w
     \<and> scout w' = scout w \<and> tx_rows w' = tx_rows w \<and> trace w' = trace w
     \<and> Name ` set (files w') = Name ` set (files w)
     \<and> (fresh_file w \<longrightarrow> fresh_file w')"
proof (induction r arbitrary: w res r' w')
  case (BodyReader rs)
  then show ?case by (cases rs) auto
next
  case (TeeReader r name)
  obtain p e r1 w1 where inner: "Read env r w = ((p, e), r1, w1)"
    by (metis prod.exhaust)
  note ih = TeeReader.IH [OF inner]
  show ?case
  proof (cases "p = []")
    case True
    with TeeReader.prems inner ih show ?thesis by auto
  next
    case False
    obtain n we w2 where wr: "File_Write env name p w1 = ((n, we), w2)"
      by (metis prod.exhaust)
    from TeeReader.prems inner False wr have "w' = w2"
      by (auto split: option.splits)
    with ih File_Write_frame [OF wr] show ?thesis by auto
  qed
qed

lemma Read_body_world: "Read env (BodyReader rs) w = (res, r', w') \<Longrightarrow> w' = w \<and> (\<exists>rs'. r' = BodyReader rs')"
  by (cases rs) auto

lemma Read_tee:
  assumes "Read env (TeeReader (BodyReader rs) name) w = ((p, e), r', w')"
    and "name \<in> Name ` set (files w)"
  shows "(\<exists>rs'. r' = TeeReader (BodyReader rs') name)
     \<and> file_content name w' = file_content name w @ p
     \<and> name \<in> Name ` set (files w')"
proof -
  obtain q eq r1 where inner: "Read env (BodyReader rs) w = ((q, eq), r1, w)"
    by (cases rs) auto
  then obtain rs' where r1: "r1 = BodyReader rs'"
    using Read_body_world by blast
  show ?thesis
  proof (cases "q = []")
    case True
    with assms inner r1 show ?thesis by auto
  next
    case False
    obtain n we w2 where wr: "File_Write env name q w = ((n, we), w2)"
      by (metis prod.exhaust)
    from File_Write_content [OF wr assms(2)] File_Write_frame(7) [OF wr] assms inner r1 False wr
    show ?thesis
      by (cases we) auto
  qed
qed

lemma readValue_preserves:
  assumes step: "\<And>env r w res r' w'. Read env r w = (res, r', w') \<Longrightarrow> Q w \<Longrightarrow> Q w'"
  shows "readValue env buf err r w = (res, buf', w') \<Longrightarrow> Q w \<Longrightarrow> Q w'"
proof (induction env buf err r w arbitrary: res buf' w' rule: readValue.induct)
  case (1 env buf err r w)
  show ?case
  proof (cases "scan env buf = NeedMore \<and> err = None")
    case False
    with "1.prems" show ?thesis
      by (subst (asm) readValue.simps) (auto split: scan_result.splits option.splits if_splits)
  next
    case True
    obtain p e r1 w1 where rd: "Read env r w = ((p, e), r1, w1)"
      by (metis prod.exhaust)
    from True rd "1.prems"(1) have rec: "readValue env (buf @ p) e r1 w1 = (res, buf', w')"
      by (subst (asm) readValue.simps) simp
    from step [OF rd "1.prems"(2)] have "Q w1" .
    from "1.IH" [OF _ _ rd [symmetric] refl refl rec this] True show ?thesis
      by simp
  qed
qed

lemma readValue_frame:
  assumes "readValue env buf err r w = (res, buf', w')"
  shows "dir_exists w' = dir_exists w" "dir_fault w' = dir_fault w" "now w' = now w"
    "scout w' = scout w" "tx_rows w' = tx_rows w" "trace w' = trace w"
    "Name ` set (files w') = Name ` set (files w)"
    "fresh_file w \<Longrightarrow> fresh_file w'"
proof -
  let ?Q = "\<lambda>v. dir_exists v = dir_exists w \<and> dir_fault v = dir_fault w \<and> now v = now w
      \<and> scout v = scout w \<and> tx_rows v = tx_rows w \<and> trace v = trace w
      \<and> Name ` set (files v) = Name ` set (files w)"
  have "?Q w'"
    by (rule readValue_preserves [where Q = ?Q, OF _ assms]) (use Read_frame in fastforce)+
  then show "dir_exists w' = dir_exists w" "dir_fault w' = dir_fault w" "now w' = now w"
    "scout w' = scout w" "tx_rows w' = tx_rows w" "trace w' = trace w"
    "Name ` set (files w') = Name ` set (files w)"
    by simp_all
  show "fresh_file w \<Longrightarrow> fresh_file w'"
    by (rule readValue_preserves [where Q = fresh_file, OF _ assms]) (use Read_frame in blast)+
qed

lemma readValue_body:
  "readValue env buf err r w = (res, buf', w') \<Longrightarrow> r = BodyReader rs \<Longrightarrow>
     w' = w \<and> readValue env buf err r v = (res, buf', v)"
proof (induction env buf err r w arbitrary: res buf' w' rs v rule: readValue.induct)
  case (1 env buf err r w)
  show ?case
  proof (cases "scan env buf = NeedMore \<and> err = None")
    case False
    with "1.prems"(1) show ?thesis
      by (subst (asm) readValue.simps, subst readValue.simps)
         (auto split: scan_result.splits option.splits if_splits)
  next
    case True
    obtain p e r1 w1 where rd: "Read env r w = ((p, e), r1, w1)"
      by (metis prod.exhaust)
    with "1.prems"(2) Read_body_world obtain rs' where r1: "r1 = BodyReader rs'" and w1: "w1 = w"
      by blast
    from rd "1.prems"(2) r1 have rdv: "Read env r v = ((p, e), r1, v)"
      by (cases rs) auto
    from True rd "1.prems"(1) have rec: "readValue env (buf @ p) e r1 w1 = (res, buf', w')"
      by (subst (asm) readValue.simps) simp
    from "1.IH" [OF _ _ rd [symmetric] refl refl rec r1, of v] True
    have "w' = w1" "readValue env (buf @ p) e r1 v = (res, buf', v)"
      by simp_all
    with True rdv w1 show ?thesis
      by (subst readValue.simps) simp
  qed
qed

lemma readValue_tee:
  "readValue env buf err r w = (res, buf', w') \<Longrightarrow> r = TeeReader (BodyReader rs) name \<Longrightarrow>
   name \<in> Name ` set (files w) \<Longrightarrow>
     \<exists>new. buf' = buf @ new \<and> file_content name w' = file_content name w @ new"
proof (induction env buf err r w arbitrary: res buf' w' rs rule: readValue.induct)
  case (1 env buf err r w)
  show ?case
  proof (cases "scan env buf = NeedMore \<and> err = None")
    case False
    with "1.prems"(1) show ?thesis
      by (subst (asm) readValue.simps) (auto split: scan_result.splits option.splits if_splits)
  next
    case True
    obtain p e r1 w1 where rd: "Read env r w = ((p, e), r1, w1)"
      by (metis prod.exhaust)
    from Read_tee [OF rd [unfolded "1.prems"(2)] "1.prems"(3)]
    obtain rs' where r1: "r1 = TeeReader (BodyReader rs') name"
      and c1: "file_content name w1 = file_content name w @ p"
      and n1: "name \<in> Name ` set (files w1)"
      by blast
    from True rd "1.prems"(1) have rec: "readValue env (buf @ p) e r1 w1 = (res, buf', w')"
      by (subst (asm) readValue.simps) simp
    from "1.IH" [OF _ _ rd [symmetric] refl refl rec r1 n1] True
    obtain new where "buf' = (buf @ p) @ new" "file_content name w' = file_content name w1 @ new"
      by auto
    with c1 show ?thesis
      by simp
  qed
qed

lemma readValue_after_error:
  "e \<noteq> EOF \<Longrightarrow>
   readValue env buf (Some e) r w =
     (case scan env buf of
        EndAt n \<Rightarrow> (Inr n, buf, w)
      | SyntaxErr msg \<Rightarrow> (Inl (SyntaxError msg), buf, w)
      | NeedMore \<Rightarrow> (Inl (ReadError e), buf, w))"
  by (subst readValue.simps) (simp split: scan_result.splits)

lemma Decode_frame:
  assumes "Decode env r w = (res, w')"
  shows "dir_exists w' = dir_exists w" "dir_fault w' = dir_fault w" "now w' = now w"
    "scout w' = scout w" "tx_rows w' = tx_rows w" "trace w' = trace w"
    "Name ` set (files w') = Name ` set (files w)"
    "fresh_file w \<Longrightarrow> fresh_file w'"
proof -
  obtain rv buf w1 where rv: "readValue env [] None r w = (rv, buf, w1)"
    by (metis prod.exhaust)
  with assms have "w' = w1"
    by (auto simp: Decode_def split: sum.splits)
  with readValue_frame [OF rv]
  show "dir_exists w' = dir_exists w" "dir_fault w' = dir_fault w" "now w' = now w"
    "scout w' = scout w" "tx_rows w' = tx_rows w" "trace w' = trace w"
    "Name ` set (files w') = Name ` set (files w)"
    "fresh_file w \<Longrightarrow> fresh_file w'"
    by simp_all
qed

lemma Decode_body:
  assumes "Decode env (BodyReader rs) w = (res, w')"
  shows "w' = w" "Decode env (BodyReader rs) v = (res, v)"
proof -
  obtain rv buf w1 where rv: "readValue env [] None (BodyReader rs) w = (rv, buf, w1)"
    by (metis prod.exhaust)
  from readValue_body [OF rv refl, of v]
  have "w1 = w" "readValue env [] None (BodyReader rs) v = (rv, buf, v)"
    by simp_all
  with assms rv show "w' = w" "Decode env (BodyReader rs) v = (res, v)"
    by (auto simp: Decode_def split: sum.splits)
qed

lemma find_append_list:
  "find P (xs @ ys) = (case find P xs of None \<Rightarrow> find P ys | Some x \<Rightarrow> Some x)"
  by (induction xs) auto

lemma OpenFile_create_ok:
  assumes "OpenFile_create env name w = (Inr f, w2)"
  shows "f = name" "dir_exists w2 = dir_exists w" "dir_fault w2 = dir_fault w" "now w2 = now w"
    "scout w2 = scout w" "tx_rows w2 = tx_rows w" "trace w2 = trace w"
    "f \<in> Name ` set (files w2)" "file_content f w2 = []" "fresh_file w2"
proof -
  let ?g = "\<lambda>x. if Name x = name then x\<lparr>ModTime := now w, Content := []\<rparr> else x"
  let ?new = "\<lparr>Name = name, IsRegular = True, ModTime = now w, Content = [], OpenErr = None\<rparr>"
  from assms have ok: "create_fault env = None"
    "\<not> list_ex (\<lambda>x. Name x = name \<and> \<not> IsRegular x) (files w)"
    by (auto simp: OpenFile_create_def split: option.splits if_splits)
  show "f = name" "dir_exists w2 = dir_exists w" "dir_fault w2 = dir_fault w" "now w2 = now w"
    "scout w2 = scout w" "tx_rows w2 = tx_rows w" "trace w2 = trace w"
    using assms by (auto simp: OpenFile_create_def split: option.splits if_splits)
  show "f \<in> Name ` set (files w2)" "file_content f w2 = []" "fresh_file w2"
  proof (atomize (full), cases "list_ex (\<lambda>x. Name x = name) (files w)")
    case True
    with assms ok have w2: "files w2 = map ?g (files w)" "now w2 = now w" "f = name"
      by (auto simp: OpenFile_create_def)
    from True obtain x where x: "x \<in> set (files w)" "Name x = name"
      by (auto simp: list_ex_iff)
    with ok have reg: "IsRegular x"
      by (auto simp: list_ex_iff)
    from x(1) have in2: "?g x \<in> set (files w2)"
      unfolding w2 set_map by (rule imageI)
    from True obtain y where y: "find (\<lambda>x. Name x = name) (files w) = Some y"
      by (cases "find (\<lambda>x. Name x = name) (files w)") (auto simp: find_None_iff list_ex_iff)
    then have "Name y = name"
      by (auto simp: find_Some_iff)
    with y have "file_content f w2 = []"
      by (simp add: file_content_def w2 find_map_same)
    moreover have "f \<in> Name ` set (files w2)"
    proof (rule image_eqI [OF _ in2])
      show "f = Name (?g x)"
        using x(2) w2(3) by simp
    qed
    moreover from in2 x reg have "fresh_file w2"
      unfolding fresh_file_def w2(2) by (intro bexI [of _ "?g x"]) simp_all
    ultimately show "f \<in> Name ` set (files w2) \<and> file_content f w2 = [] \<and> fresh_file w2"
      by simp
  next
    case False
    with assms ok have w2: "files w2 = files w @ [?new]" "now w2 = now w" "f = name"
      by (auto simp: OpenFile_create_def)
    from False have "find (\<lambda>x. Name x = name) (files w) = None"
      by (auto simp: find_None_iff list_ex_iff)
    then have "file_content f w2 = []"
      by (simp add: file_content_def w2 find_append_list)
    then show "f \<in> Name ` set (files w2) \<and> file_content f w2 = [] \<and> fresh_file w2"
      by (simp add: w2 fresh_file_def)
  qed
qed

lemma newCacheFile_ok:
  assumes "newCacheFile env w = (Inr f, w2)" "dir_exists w \<longrightarrow> dir_fault w = None"
  shows "dir_exists w2" "dir_fault w2 = None" "now w2 = now w"
    "scout w2 = scout w" "tx_rows w2 = tx_rows w" "trace w2 = trace w"
    "f \<in> Name ` set (files w2)" "file_content f w2 = []" "fresh_file w2"
    "f = itoa (Unix (now w)) @ ''.json''"
proof -
  obtain w1 where w1: "(if \<not> dir_exists w then MkdirAll env w else (None, w)) = (None, w1)"
    and op: "OpenFile_create env (itoa (Unix (now w1)) @ ''.json'') w1 = (Inr f, w2)"
    using assms(1) by (auto simp: newCacheFile_def split: prod.splits option.splits)
  from w1 assms(2) have "dir_exists w1" "dir_fault w1 = None" "now w1 = now w"
    "scout w1 = scout w" "tx_rows w1 = tx_rows w" "trace w1 = trace w"
    by (auto simp: MkdirAll_def split: if_splits option.splits)
  with OpenFile_create_ok [OF op]
  show "dir_exists w2" "dir_fault w2 = None" "now w2 = now w"
    "scout w2 = scout w" "tx_rows w2 = tx_rows w" "trace w2 = trace w"
    "f \<in> Name ` set (files w2)" "file_content f w2 = []" "fresh_file w2"
    "f = itoa (Unix (now w)) @ ''.json''"
    by simp_all
qed

lemma stmt_Exec_cache:
  "stmt_Exec env k args w = (r, w') \<Longrightarrow>
     files w' = files w \<and> dir_exists w' = dir_exists w \<and> dir_fault w' = dir_fault w \<and> now w' = now w"
  by (auto simp: stmt_Exec_def Let_def split: option.splits if_splits)

lemma exec_details_cache:
  "exec_details env ds ci w = (r, w') \<Longrightarrow>
     files w' = files w \<and> dir_exists w' = dir_exists w \<and> dir_fault w' = dir_fault w \<and> now w' = now w"
proof (induction ds arbitrary: ci w)
  case Nil
  then show ?case by simp
next
  case (Cons d ds)
  obtain c i where ci: "ci = (c, i)" by (cases ci)
  obtain r1 w1 where step: "stmt_Exec env (c + 1) (bind_args d) w = (r1, w1)"
    by (metis prod.exhaust)
  show ?case
  proof (cases r1)
    case (Inl e)
    with Cons.prems ci step stmt_Exec_cache [OF step] show ?thesis by simp
  next
    case (Inr n)
    with Cons.prems ci step have "exec_details env ds (c + 1, i + n) w1 = (r, w')" by simp
    from Cons.IH [OF this] stmt_Exec_cache [OF step] show ?thesis by simp
  qed
qed

lemma exec_summaries_cache:
  "exec_summaries env ss ci w = (r, w') \<Longrightarrow>
     files w' = files w \<and> dir_exists w' = dir_exists w \<and> dir_fault w' = dir_fault w \<and> now w' = now w"
proof (induction ss arbitrary: ci w)
  case Nil
  then show ?case by simp
next
  case (Cons s ss)
  obtain r1 w1 where step: "exec_details env (Data s) ci w = (r1, w1)"
    by (metis prod.exhaust)
  show ?case
  proof (cases r1)
    case (Inl e)
    with Cons.prems step exec_details_cache [OF step] show ?thesis by simp
  next
    case (Inr ci')
    with Cons.prems step have "exec_summaries env ss ci' w1 = (r, w')" by simp
    from Cons.IH [OF this] exec_details_cache [OF step] show ?thesis by simp
  qed
qed

lemma writeSummaries_cache:
  assumes "writeSummaries env ss w = (r, w')"
  shows "files w' = files w" "dir_exists w' = dir_exists w" "dir_fault w' = dir_fault w"
    "now w' = now w"
proof -
  let ?w3 = "db_Begin (emit DbPrepare (emit DbExecSchema (emit DbConnect w)))"
  obtain r1 w4 where loop: "exec_summaries env ss (0, 0) ?w3 = (r1, w4)"
    by (metis prod.exhaust)
  from exec_summaries_cache [OF loop]
  have "files w4 = files w \<and> dir_exists w4 = dir_exists w \<and> dir_fault w4 = dir_fault w \<and> now w4 = now w"
    by (simp add: db_Begin_def)
  with assms loop
  have "files w' = files w \<and> dir_exists w' = dir_exists w \<and> dir_fault w' = dir_fault w \<and> now w' = now w"
    by (auto simp: writeSummaries_def writeSummaries_connected_def Let_def db_Begin_def
          tx_Rollback_def tx_Commit_def split: option.splits sum.splits prod.splits)
  then show "files w' = files w" "dir_exists w' = dir_exists w" "dir_fault w' = dir_fault w"
    "now w' = now w"
    by simp_all
qed

lemma Main_gated:
  "\<not> replay env \<Longrightarrow> cacheModifiedSince (now w - minTimeBetweenFetches) w = Inr True \<Longrightarrow>
     Main env w = (Inr (), emit (Logged NothingToDo) w)"
  by (simp add: Main_def)

lemma fresh_gates:
  assumes "dir_exists v" "dir_fault v = None" "fresh_file v"
    and "files w = files v" "dir_exists w = dir_exists v" "dir_fault w = dir_fault v"
    and "now w < now v + minTimeBetweenFetches" "\<not> replay env"
  shows "Main env w = (Inr (), emit (Logged NothingToDo) w)"
proof -
  from assms(3) obtain f where "f \<in> set (files v)" "IsRegular f" "ModTime f = now v"
    by (auto simp: fresh_file_def)
  with assms have "cacheModifiedSince (now w - minTimeBetweenFetches) w = Inr True"
    by (auto simp: cacheModifiedSince_True_iff ReadDir_def)
  with assms(8) show ?thesis
    by (simp add: Main_gated)
qed

lemma not_recent_listable:
  "cacheModifiedSince t w = Inr False \<Longrightarrow> dir_exists w \<longrightarrow> dir_fault w = None"
  by (auto simp: cacheModifiedSince_def ReadDir_def split: if_splits option.splits sum.splits)

text \<open>The live path, once the cache file is open.\<close>

lemma Main_live:
  assumes "\<not> replay env" "cacheModifiedSince (now w - minTimeBetweenFetches) w = Inr False"
    and "http_get env = Inr res" "StatusCode res = 200"
    and "newCacheFile env (emit (HttpGet url) w) = (Inr f, w2)"
  shows "Main env w =
     (case Decode env (TeeReader (BodyReader (Body res)) f) w2 of
        (Inl err, w3) \<Rightarrow> (Inl (DecodeError err), w3)
      | (Inr summary, w3) \<Rightarrow>
          if Version (Signature summary) \<noteq> ''1.2''
          then (Inl (UnknownVersion (Version (Signature summary))), w3)
          else writeSummaries env [summary] w3)"
  using assms by (simp add: Main_def Let_def)

lemma writeSummaries_result:
  "writeSummaries env ss w = (Inl e, w') \<Longrightarrow>
     (\<exists>m. e = ConnectError m \<or> e = SchemaError m \<or> e = PrepareError m \<or> e = TransactionError m
        \<or> e = ExecError m \<or> e = CommitFailed m)"
  by (auto simp: writeSummaries_def writeSummaries_connected_def Let_def
        split: option.splits sum.splits prod.splits)

lemma Main_live_leaves_fresh:
  assumes nr: "\<not> replay env"
    and old: "cacheModifiedSince (now w - minTimeBetweenFetches) w = Inr False"
    and run: "Main env w = (r, w')"
    and res: "r = Inr () \<or> (\<exists>v. r = Inl (UnknownVersion v))"
  shows "dir_exists w' \<and> dir_fault w' = None \<and> fresh_file w' \<and> now w' = now w"
proof -
  from nr old run res obtain resp where get: "http_get env = Inr resp" "StatusCode resp = 200"
    by (auto simp: Main_def Let_def split: sum.splits if_splits)
  obtain rf w2 where ncf: "newCacheFile env (emit (HttpGet url) w) = (rf, w2)"
    by (metis prod.exhaust)
  with nr old run res get obtain f where f: "rf = Inr f"
    by (cases rf) (auto simp: Main_def Let_def)
  from not_recent_listable [OF old]
  have pre: "dir_exists (emit (HttpGet url) w) \<longrightarrow> dir_fault (emit (HttpGet url) w) = None"
    by simp
  note nc = newCacheFile_ok [OF ncf [unfolded f] pre]
  obtain rd w3 where dec: "Decode env (TeeReader (BodyReader (Body resp)) f) w2 = (rd, w3)"
    by (metis prod.exhaust)
  note df = Decode_frame [OF dec]
  from nc df have w3: "dir_exists w3 \<and> dir_fault w3 = None \<and> fresh_file w3 \<and> now w3 = now w"
    by simp
  from Main_live [OF nr old get ncf [unfolded f]] dec run
  have cases: "(r, w') = (case rd of Inl err \<Rightarrow> (Inl (DecodeError err), w3)
      | Inr summary \<Rightarrow> if Version (Signature summary) \<noteq> ''1.2''
          then (Inl (UnknownVersion (Version (Signature summary))), w3)
          else writeSummaries env [summary] w3)"
    by (simp split: sum.splits)
  show ?thesis
  proof (cases rd)
    case (Inl err)
    with cases res show ?thesis by auto
  next
    case (Inr summary)
    show ?thesis
    proof (cases "Version (Signature summary) = ''1.2''")
      case False
      with cases Inr w3 show ?thesis by simp
    next
      case True
      with cases Inr have ws: "writeSummaries env [summary] w3 = (r, w')" by simp
      from writeSummaries_cache [OF ws] w3 show ?thesis
        by (auto simp: fresh_file_def)
    qed
  qed
qed

lemmas feed_defs = feed_env_def quiet_env_def empty_world_def object_scan_def payload_def quoted_def
  versioned_def unmarshal_payload_def dquote_def isSpace_def

lemmas live_defs = Main_def cacheModifiedSince_def ReadDir_def newCacheFile_def MkdirAll_def
  OpenFile_create_def Decode_def readValue.simps File_Write_def file_content_def append_file_def
  itoa_def Unix_def digits_of.simps digit_char_def minTimeBetweenFetches_def url_def Let_def emit_def

lemma t0_val: "t0 = 63871286400"
  by (simp add: t0_def Date_def isLeap_def daysBefore_def)

lemma run11: "Main (feed_env [payload ''1.1'']) (empty_world t0) = (Inl (UnknownVersion ''1.1''), cached (payload ''1.1''))"
  by (simp add: feed_defs live_defs cached_def t0_val)




lemma replay_files_no_regular:
  "\<forall>f\<in>set fis. \<not> IsRegular f \<Longrightarrow> replay_files env fis acc w = (Inr acc, w)"
  by (induction fis) auto

lemma writeSummaries_nothing:
  "scout (snd (writeSummaries env [] w)) = scout w"
  by (simp add: writeSummaries_def writeSummaries_connected_def Let_def db_Begin_def tx_Rollback_def
        tx_Commit_def split: option.splits)

lemma writeSummaries_nothing_quiet:
  "connect_fault env = None \<Longrightarrow> schema_fault env = None \<Longrightarrow> prepare_fault env = None \<Longrightarrow>
   begin_fault env = None \<Longrightarrow> commit_fault env = None \<Longrightarrow>
   fst (writeSummaries env [] w) = Inr ()
   \<and> trace (snd (writeSummaries env [] w))
       = trace w @ [DbConnect, DbExecSchema, DbPrepare, TxBegin, TxCommit, Logged (Added 0 0), DbClose]"
  by (simp add: writeSummaries_def writeSummaries_connected_def Let_def db_Begin_def tx_Commit_def)

text \<open>
  C10.  In replay mode, when the cache directory does not exist the run returns success and
  leaves the world as it is: no database call, no log line.  When the directory exists and its
  listing has no regular file, the run is \<^verbatim>\<open>writeSummaries\<close> on no snapshots: it never changes
  the rows of the table, and when no database call fails it connects, provisions the schema,
  prepares, begins and commits a transaction with no INSERT, and returns success.
\<close>

theorem replay_absent_or_empty:
  "(replay env \<and> \<not> dir_exists w \<longrightarrow> Main env w = (Inr (), w))
   \<and> (replay env \<and> dir_exists w \<and> ReadDir w = Inr fis \<and> (\<forall>f\<in>set fis. \<not> IsRegular f) \<longrightarrow>
        Main env w = writeSummaries env [] (emit (Logged (Replaying 0)) w)
        \<and> scout (snd (Main env w)) = scout w
        \<and> (connect_fault env = None \<and> schema_fault env = None \<and> prepare_fault env = None
            \<and> begin_fault env = None \<and> commit_fault env = None \<longrightarrow>
             fst (Main env w) = Inr ()
             \<and> trace (snd (Main env w))
                 = trace w @ [Logged (Replaying 0), DbConnect, DbExecSchema, DbPrepare, TxBegin,
                              TxCommit, Logged (Added 0 0), DbClose]))"
proof (intro conjI impI)
  show "Main env w = (Inr (), w)" if "replay env \<and> \<not> dir_exists w"
    using that by (simp add: Main_def replayFromCache_def)
next
  assume a: "replay env \<and> dir_exists w \<and> ReadDir w = Inr fis \<and> (\<forall>f\<in>set fis. \<not> IsRegular f)"
  then show m: "Main env w = writeSummaries env [] (emit (Logged (Replaying 0)) w)"
    by (simp add: Main_def replayFromCache_def replay_files_no_regular)
  from m show "scout (snd (Main env w)) = scout w"
    by (simp add: writeSummaries_nothing)
  assume "connect_fault env = None \<and> schema_fault env = None \<and> prepare_fault env = None
            \<and> begin_fault env = None \<and> commit_fault env = None"
  with m writeSummaries_nothing_quiet [of env "emit (Logged (Replaying 0)) w"]
  show "fst (Main env w) = Inr ()"
    "trace (snd (Main env w))
       = trace w @ [Logged (Replaying 0), DbConnect, DbExecSchema, DbPrepare, TxBegin,
                    TxCommit, Logged (Added 0 0), DbClose]"
    by simp_all
qed

theorem replay_absent_or_empty_witness:
  "Main (quiet_env\<lparr>replay := True\<rparr>) (empty_world t0 :: real world) = (Inr (), empty_world t0)
   \<and> fst (Main (quiet_env\<lparr>replay := True\<rparr>) only_subdir) = Inr ()
   \<and> scout (snd (Main (quiet_env\<lparr>replay := True\<rparr>) only_subdir)) = []
   \<and> trace (snd (Main (quiet_env\<lparr>replay := True\<rparr>) only_subdir))
       = [Logged (Replaying 0), DbConnect, DbExecSchema, DbPrepare, TxBegin, TxCommit,
          Logged (Added 0 0), DbClose]"
proof -
  let ?env = "quiet_env\<lparr>replay := True\<rparr> :: real env"
  have absent: "replay ?env \<and> \<not> dir_exists (empty_world t0 :: real world)"
    by (simp add: quiet_env_def empty_world_def)
  have listed: "replay ?env \<and> dir_exists only_subdir \<and> ReadDir only_subdir = Inr (files only_subdir)
      \<and> (\<forall>f\<in>set (files only_subdir). \<not> IsRegular f)"
    by (simp add: quiet_env_def only_subdir_def empty_world_def ReadDir_def)
  have quiet: "connect_fault ?env = None \<and> schema_fault ?env = None \<and> prepare_fault ?env = None
      \<and> begin_fault ?env = None \<and> commit_fault ?env = None"
    by (simp add: quiet_env_def)
  from replay_absent_or_empty [of ?env "empty_world t0" "[]"] absent
  have "Main ?env (empty_world t0 :: real world) = (Inr (), empty_world t0)"
    by blast
  moreover from replay_absent_or_empty [of ?env only_subdir "files only_subdir"] listed quiet
  have "fst (Main ?env only_subdir) = Inr ()"
    "scout (snd (Main ?env only_subdir)) = scout only_subdir"
    "trace (snd (Main ?env only_subdir))
       = trace only_subdir @ [Logged (Replaying 0), DbConnect, DbExecSchema, DbPrepare, TxBegin,
          TxCommit, Logged (Added 0 0), DbClose]"
    by blast+
  ultimately show ?thesis
    by (simp add: only_subdir_def empty_world_def)
qed

lemma Main_live_unfold:
  assumes nr: "\<not> replay env"
    and run: "Main env w = (r, w')"
    and res: "r = Inr () \<and> cacheModifiedSince (now w - minTimeBetweenFetches) w = Inr False
        \<or> (\<exists>v. r = Inl (UnknownVersion v)) \<or> (\<exists>e. r = Inl (DecodeError e))"
  obtains resp f w2 where
    "cacheModifiedSince (now w - minTimeBetweenFetches) w = Inr False"
    "http_get env = Inr resp" "StatusCode resp = 200"
    "newCacheFile env (emit (HttpGet url) w) = (Inr f, w2)"
proof -
  from nr run res have old: "cacheModifiedSince (now w - minTimeBetweenFetches) w = Inr False"
    by (auto simp: Main_def Let_def split: sum.splits if_splits)
  from nr old run res obtain resp where get: "http_get env = Inr resp" "StatusCode resp = 200"
    by (auto simp: Main_def Let_def split: sum.splits if_splits)
  obtain rf w2 where ncf: "newCacheFile env (emit (HttpGet url) w) = (rf, w2)"
    by (metis prod.exhaust)
  with nr old run res get obtain f where f: "rf = Inr f"
    by (cases rf) (auto simp: Main_def Let_def)
  show thesis
    by (rule that [OF old get ncf [unfolded f]])
qed

text \<open>
  C9.  When a live run returns the error of an unknown version \<open>v\<close>, then \<open>v\<close> is not
  1.2; the cache file named by the run's clock exists and its bytes begin with the whole JSON
  value that decoded to the rejected snapshot; a regular cache file carries the run's time as
  modification time; the run made the HTTP request and no database call, and the table is as
  before.  From then on every live run whose clock is less than 15 minutes past that run's, on
  a cache directory left as it is, logs that there is nothing to do and returns success with no
  request and nothing written.
\<close>

theorem rejected_payload_stays_cached:
  "\<not> replay (env :: 'a env) \<and> Main env w = (Inl (UnknownVersion v), w') \<longrightarrow>
     v \<noteq> ''1.2''
     \<and> (\<exists>f n summary. f = itoa (Unix (now w)) @ ''.json'' \<and> f \<in> Name ` set (files w')
           \<and> unmarshal env (take n (file_content f w')) = Inr summary
           \<and> Version (Signature summary) = v)
     \<and> fresh_file w' \<and> now w' = now w
     \<and> scout w' = scout w \<and> trace w' = trace w @ [HttpGet url]
     \<and> (\<forall>(env' :: 'b env) (u :: 'b world). \<not> replay env' \<and> files u = files w' \<and> dir_exists u = dir_exists w'
            \<and> dir_fault u = dir_fault w' \<and> now u < now w + minTimeBetweenFetches \<longrightarrow>
            Main env' u = (Inr (), emit (Logged NothingToDo) u))"
proof (intro impI)
  assume a: "\<not> replay env \<and> Main env w = (Inl (UnknownVersion v), w')"
  then have nr: "\<not> replay env" and run: "Main env w = (Inl (UnknownVersion v), w')"
    by simp_all
  from nr run obtain resp f w2 where
    old: "cacheModifiedSince (now w - minTimeBetweenFetches) w = Inr False"
    and get: "http_get env = Inr resp" "StatusCode resp = 200"
    and ncf: "newCacheFile env (emit (HttpGet url) w) = (Inr f, w2)"
    by (rule Main_live_unfold) blast
  from not_recent_listable [OF old]
  have pre: "dir_exists (emit (HttpGet url) w) \<longrightarrow> dir_fault (emit (HttpGet url) w) = None"
    by simp
  note nc = newCacheFile_ok [OF ncf pre]
  obtain rv buf w3 where rv: "readValue env [] None (TeeReader (BodyReader (Body resp)) f) w2 = (rv, buf, w3)"
    by (metis prod.exhaust)
  from Main_live [OF nr old get ncf] run rv
  obtain n summary where ok: "rv = Inr n" "unmarshal env (take n buf) = Inr summary"
    "Version (Signature summary) = v" "v \<noteq> ''1.2''" "w' = w3"
    using writeSummaries_result [of env _ w3 "UnknownVersion v" w']
    by (auto simp: Decode_def split: sum.splits if_splits)
  from readValue_tee [OF rv refl nc(7)] nc(8) have content: "file_content f w3 = buf"
    by simp
  note fr = readValue_frame [OF rv]
  have left: "dir_exists w' \<and> dir_fault w' = None \<and> fresh_file w' \<and> now w' = now w"
    using Main_live_leaves_fresh [OF nr old run] by blast
  have later: "Main env' u = (Inr (), emit (Logged NothingToDo) u)"
    if "\<not> replay env' \<and> files u = files w' \<and> dir_exists u = dir_exists w'
          \<and> dir_fault u = dir_fault w' \<and> now u < now w + minTimeBetweenFetches"
    for env' :: "'b env" and u :: "'b world"
    using that left by (intro fresh_gates [of w']) simp_all
  from nc fr ok content have cachefile: "\<exists>f n summary. f = itoa (Unix (now w)) @ ''.json''
      \<and> f \<in> Name ` set (files w')
      \<and> unmarshal env (take n (file_content f w')) = Inr summary
      \<and> Version (Signature summary) = v"
    by (intro exI [of _ f] exI [of _ n] exI [of _ summary]) simp
  from nc fr ok have db: "scout w' = scout w \<and> trace w' = trace w @ [HttpGet url]"
    by simp
  show "v \<noteq> ''1.2''
     \<and> (\<exists>f n summary. f = itoa (Unix (now w)) @ ''.json'' \<and> f \<in> Name ` set (files w')
           \<and> unmarshal env (take n (file_content f w')) = Inr summary
           \<and> Version (Signature summary) = v)
     \<and> fresh_file w' \<and> now w' = now w
     \<and> scout w' = scout w \<and> trace w' = trace w @ [HttpGet url]
     \<and> (\<forall>(env' :: 'b env) (u :: 'b world). \<not> replay env' \<and> files u = files w' \<and> dir_exists u = dir_exists w'
            \<and> dir_fault u = dir_fault w' \<and> now u < now w + minTimeBetweenFetches \<longrightarrow>
            Main env' u = (Inr (), emit (Logged NothingToDo) u))"
  proof (intro conjI allI impI)
    show "v \<noteq> ''1.2''" by (rule ok(4))
    show "\<exists>f n summary. f = itoa (Unix (now w)) @ ''.json'' \<and> f \<in> Name ` set (files w')
           \<and> unmarshal env (take n (file_content f w')) = Inr summary
           \<and> Version (Signature summary) = v"
      by (rule cachefile)
    show "fresh_file w'" "now w' = now w" using left by simp_all
    show "scout w' = scout w" "trace w' = trace w @ [HttpGet url]" using db by simp_all
  next
    fix env' :: "'b env" and u :: "'b world"
    assume "\<not> replay env' \<and> files u = files w' \<and> dir_exists u = dir_exists w'
            \<and> dir_fault u = dir_fault w' \<and> now u < now w + minTimeBetweenFetches"
    then show "Main env' u = (Inr (), emit (Logged NothingToDo) u)"
      by (rule later)
  qed
qed

theorem rejected_payload_stays_cached_witness:
  "\<not> replay (feed_env [payload ''1.1''])
   \<and> Main (feed_env [payload ''1.1'']) (empty_world t0)
       = (Inl (UnknownVersion ''1.1''), cached (payload ''1.1''))
   \<and> scout (cached (payload ''1.1'')) = []
   \<and> trace (cached (payload ''1.1'')) = [HttpGet url]
   \<and> Main (feed_env [payload ''1.2'']) ((cached (payload ''1.1''))\<lparr>now := t0 + 899\<rparr>)
       = (Inr (), emit (Logged NothingToDo) ((cached (payload ''1.1''))\<lparr>now := t0 + 899\<rparr>))"
proof -
  let ?u = "(cached (payload ''1.1''))\<lparr>now := t0 + 899\<rparr>"
  have live: "\<not> replay (feed_env [payload ''1.1''])" "\<not> replay (feed_env [payload ''1.2''])"
    by (simp_all add: feed_defs)
  have later: "files ?u = files (cached (payload ''1.1''))"
    "dir_exists ?u = dir_exists (cached (payload ''1.1''))"
    "dir_fault ?u = dir_fault (cached (payload ''1.1''))"
    "now ?u < now (empty_world t0 :: real world) + minTimeBetweenFetches"
    by (simp_all add: cached_def empty_world_def minTimeBetweenFetches_def)
  from rejected_payload_stays_cached
    [of "feed_env [payload ''1.1'']" "empty_world t0" "''1.1''" "cached (payload ''1.1'')"]
    live(1) run11
  have "scout (cached (payload ''1.1'')) = scout (empty_world t0 :: real world)"
    "trace (cached (payload ''1.1'')) = trace (empty_world t0 :: real world) @ [HttpGet url]"
    "\<forall>(env' :: real env) (u :: real world). \<not> replay env' \<and> files u = files (cached (payload ''1.1''))
        \<and> dir_exists u = dir_exists (cached (payload ''1.1''))
        \<and> dir_fault u = dir_fault (cached (payload ''1.1''))
        \<and> now u < now (empty_world t0 :: real world) + minTimeBetweenFetches \<longrightarrow>
        Main env' u = (Inr (), emit (Logged NothingToDo) u)"
    by blast+
  with live later run11 show ?thesis
    by (simp add: empty_world_def)
qed

text \<open>
  C7 (amended).  On the tee over the response body, with the cache file in the directory:
  every \<^verbatim>\<open>Read\<close> appends to the file the bytes it hands to the decoder; so, whatever the
  outcome of \<^verbatim>\<open>readValue\<close>, the bytes the decoder received are the bytes appended to the file.
  A write that fails after \<open>k\<close> bytes makes the \<^verbatim>\<open>Read\<close> return those bytes and the write's
  error.  After a \<^verbatim>\<open>Read\<close> error other than the end of input the decoder reads no more: it
  fails with that error, or with a syntax error, unless the bytes it has already hold a
  complete value.  In a live run the cache file holds the bytes the decoder received, and a
  decode error ends the run with that error.
\<close>

theorem tee_captures_before_decoding:
  "(name \<in> Name ` set (files w)
      \<and> Read env (TeeReader (BodyReader rs) name) w = ((p, e), r', w') \<longrightarrow>
      file_content name w' = file_content name w @ p)
   \<and> (name \<in> Name ` set (files w)
      \<and> readValue env buf err (TeeReader (BodyReader rs) name) w = (res, buf', w'') \<longrightarrow>
      (\<exists>new. buf' = buf @ new \<and> file_content name w'' = file_content name w @ new))
   \<and> (name \<in> Name ` set (files w) \<and> q \<noteq> []
      \<and> write_fault env (file_content name w) q = Some (k, werr) \<longrightarrow>
      Read env (TeeReader (BodyReader ((q, e) # rs)) name) w
        = ((take (min k (length q - 1)) q, Some (OSError werr)),
           TeeReader (BodyReader rs) name,
           append_file name (take (min k (length q - 1)) q) w))
   \<and> (e' \<noteq> EOF \<longrightarrow>
      readValue env buf (Some e') r v =
        (case scan env buf of
           EndAt n \<Rightarrow> (Inr n, buf, v)
         | SyntaxErr msg \<Rightarrow> (Inl (SyntaxError msg), buf, v)
         | NeedMore \<Rightarrow> (Inl (ReadError e'), buf, v)))
   \<and> (\<not> replay env \<and> cacheModifiedSince (now start - minTimeBetweenFetches) start = Inr False
      \<and> http_get env = Inr resp \<and> StatusCode resp = 200
      \<and> newCacheFile env (emit (HttpGet url) start) = (Inr f, opened)
      \<and> readValue env [] None (TeeReader (BodyReader (Body resp)) f) opened = (rv, captured, final) \<longrightarrow>
      file_content f final = captured
      \<and> (\<forall>derr. rv = Inl derr \<longrightarrow> Main env start = (Inl (DecodeError derr), final)))"
proof (intro conjI impI)
  show "file_content name w' = file_content name w @ p"
    if "name \<in> Name ` set (files w) \<and> Read env (TeeReader (BodyReader rs) name) w = ((p, e), r', w')"
    using that Read_tee [of env rs name w p e r' w'] by simp
  show "\<exists>new. buf' = buf @ new \<and> file_content name w'' = file_content name w @ new"
    if "name \<in> Name ` set (files w)
      \<and> readValue env buf err (TeeReader (BodyReader rs) name) w = (res, buf', w'')"
    using that readValue_tee [of env buf err _ w res buf' w'' rs name] by simp
  show "Read env (TeeReader (BodyReader ((q, e) # rs)) name) w
        = ((take (min k (length q - 1)) q, Some (OSError werr)),
           TeeReader (BodyReader rs) name,
           append_file name (take (min k (length q - 1)) q) w)"
    if "name \<in> Name ` set (files w) \<and> q \<noteq> []
      \<and> write_fault env (file_content name w) q = Some (k, werr)"
    using that by (simp add: File_Write_def Let_def)
  show "readValue env buf (Some e') r v =
        (case scan env buf of
           EndAt n \<Rightarrow> (Inr n, buf, v)
         | SyntaxErr msg \<Rightarrow> (Inl (SyntaxError msg), buf, v)
         | NeedMore \<Rightarrow> (Inl (ReadError e'), buf, v))" if "e' \<noteq> EOF"
    using that by (rule readValue_after_error)
next
  assume a: "\<not> replay env \<and> cacheModifiedSince (now start - minTimeBetweenFetches) start = Inr False
      \<and> http_get env = Inr resp \<and> StatusCode resp = 200
      \<and> newCacheFile env (emit (HttpGet url) start) = (Inr f, opened)
      \<and> readValue env [] None (TeeReader (BodyReader (Body resp)) f) opened = (rv, captured, final)"
  then have nr: "\<not> replay env"
    and old: "cacheModifiedSince (now start - minTimeBetweenFetches) start = Inr False"
    and get: "http_get env = Inr resp" "StatusCode resp = 200"
    and ncf: "newCacheFile env (emit (HttpGet url) start) = (Inr f, opened)"
    and rv: "readValue env [] None (TeeReader (BodyReader (Body resp)) f) opened = (rv, captured, final)"
    by simp_all
  from not_recent_listable [OF old]
  have pre: "dir_exists (emit (HttpGet url) start) \<longrightarrow> dir_fault (emit (HttpGet url) start) = None"
    by simp
  note nc = newCacheFile_ok [OF ncf pre]
  from readValue_tee [OF rv refl nc(7)] nc(8) show "file_content f final = captured"
    by simp
  show "\<forall>derr. rv = Inl derr \<longrightarrow> Main env start = (Inl (DecodeError derr), final)"
    using Main_live [OF nr old get ncf] rv by (simp add: Decode_def)
qed

text \<open>
  The claim as stated fails: the body is the payload followed by a newline, and the disk is
  full after the payload's last byte.  The write fails, the decoder has a complete value, and
  the run goes on to the database and returns success.
\<close>

theorem tee_write_failure_counterexample:
  "write_fault full_disk_env [] (payload ''1.2'' @ [CHR 0x0A])
     = Some (length (payload ''1.2''), ''no space left on device'')
   \<and> Main full_disk_env (empty_world t0)
     = (Inr (), (cached (payload ''1.2''))
          \<lparr>trace := [HttpGet url, DbConnect, DbExecSchema, DbPrepare, TxBegin, TxCommit,
                     Logged (Added 0 0), DbClose]\<rparr>)"
  by (simp add: full_disk_env_def feed_defs live_defs cached_def t0_val run_defs versioned_def)

theorem tee_captures_before_decoding_witness:
  "Main cut_env (empty_world t0)
     = (Inl (DecodeError (ReadError ErrUnexpectedEOF)), cached (take 20 (payload ''1.2'')))
   \<and> file_content ''1735689600.json'' (cached (take 20 (payload ''1.2''))) = take 20 (payload ''1.2'')"
proof -
  let ?w1 = "emit (HttpGet url) (empty_world t0 :: real world)"
  let ?w2 = "cached []"
  let ?f = "''1735689600.json''"
  let ?resp = "\<lparr>StatusCode = 200, Status = ''200 OK'', Body = [(take 20 (payload ''1.2''), None)]\<rparr>"
  have h: "\<not> replay cut_env"
    "cacheModifiedSince (now (empty_world t0 :: real world) - minTimeBetweenFetches) (empty_world t0 :: real world) = Inr False"
    "http_get cut_env = Inr ?resp" "StatusCode ?resp = 200"
    "newCacheFile cut_env ?w1 = (Inr ?f, ?w2)"
    by (simp_all add: cut_env_def feed_defs live_defs cached_def t0_val)
  have rv: "readValue cut_env [] None (TeeReader (BodyReader (Body ?resp)) ?f) ?w2
      = (Inl (ReadError ErrUnexpectedEOF), take 20 (payload ''1.2''), cached (take 20 (payload ''1.2'')))"
    by (simp add: cut_env_def feed_defs live_defs cached_def t0_val)
  from tee_captures_before_decoding [where env = cut_env and start = "empty_world t0"
      and resp = ?resp and f = ?f and opened = ?w2 and rv = "Inl (ReadError ErrUnexpectedEOF)"
      and captured = "take 20 (payload ''1.2'')" and final = "cached (take 20 (payload ''1.2''))"]
    h rv
  show ?thesis
    by blast
qed

lemma os_Open_body: "os_Open fi = Inr f \<Longrightarrow> \<exists>rs. f = BodyReader rs"
  by (auto simp: os_Open_def split: option.splits)

lemma entry_result_world: "entry_result env w fi = entry_result env v fi"
proof (cases "os_Open fi")
  case (Inl err)
  then show ?thesis by (simp add: entry_result_def)
next
  case (Inr f)
  then obtain rs where f: "f = BodyReader rs"
    using os_Open_body by blast
  obtain res w' where d: "Decode env (BodyReader rs) w = (res, w')"
    by (metis prod.exhaust)
  from Decode_body(2) [OF d, of v] d Inr f show ?thesis
    by (simp add: entry_result_def)
qed

lemma fails_world: "fails env w = fails env v"
  by (rule ext) (simp add: fails_def entry_result_world [of env w _ v])

lemma snapshots_world: "snapshots env w fis = snapshots env v fis"
  by (simp add: snapshots_def entry_result_world [of env w _ v])

lemma Decode_entry:
  assumes "os_Open fi = Inr f"
  shows "Decode env f w = (case entry_result env w fi of
            Inl e \<Rightarrow> (Inl (case e of DecodeFileError n d \<Rightarrow> d), w)
          | Inr s \<Rightarrow> (Inr s, w))"
proof -
  from assms obtain rs where f: "f = BodyReader rs"
    using os_Open_body by blast
  obtain res w' where d: "Decode env (BodyReader rs) w = (res, w')"
    by (metis prod.exhaust)
  from Decode_body(1) [OF d] d assms f show ?thesis
    by (cases res) (simp_all add: entry_result_def)
qed

lemma snapshots_Cons:
  "snapshots env w (fi # fis) =
     (if IsRegular fi
      then (case entry_result env w fi of Inr s \<Rightarrow> [(Name fi, s)] | Inl e \<Rightarrow> []) @ snapshots env w fis
      else snapshots env w fis)"
  by (simp add: snapshots_def)

lemma trace_same [simp]: "w\<lparr>trace := trace w\<rparr> = w"
  by simp

lemma replay_files_run:
  "replay_files env fis acc w =
     (case find (fails env w) fis of
        None \<Rightarrow>
          (Inr (acc @ accepted (snapshots env w fis)),
           w\<lparr>trace := trace w @ skipped_log (snapshots env w fis)\<rparr>)
      | Some bad \<Rightarrow>
          (Inl (projl (entry_result env w bad)),
           w\<lparr>trace := trace w
                @ skipped_log (snapshots env w (takeWhile (\<lambda>fi. \<not> fails env w fi) fis))\<rparr>))"
proof (induction fis arbitrary: acc w)
  case Nil
  show ?case by (simp add: snapshots_def accepted_def skipped_log_def)
next
  case (Cons fi fis)
  show ?case
  proof (cases "IsRegular fi")
    case False
    then have nf: "\<not> fails env w fi"
      by (simp add: fails_def)
    from False nf Cons.IH [of acc w] show ?thesis
      by (simp add: snapshots_Cons split: option.splits)
  next
    case True
    show ?thesis
    proof (cases "os_Open fi")
      case (Inl err)
      with True have f: "fails env w fi" "entry_result env w fi = Inl (PlainError err)"
        by (simp_all add: fails_def entry_result_def)
      from True Inl f show ?thesis
        by (simp add: snapshots_def skipped_log_def)
    next
      case (Inr f)
      note dec = Decode_entry [OF Inr, of env w]
      show ?thesis
      proof (cases "entry_result env w fi")
        case bad: (Inl e)
        with Inr obtain d where e: "e = DecodeFileError (Name fi) d"
          by (auto simp: entry_result_def split: sum.splits)
        from True bad have f: "fails env w fi"
          by (simp add: fails_def)
        from True Inr dec bad e f show ?thesis
          by (simp add: snapshots_def skipped_log_def)
      next
        case good: (Inr s)
        with True have nf: "\<not> fails env w fi"
          by (simp add: fails_def)
        show ?thesis
        proof (cases "Version (Signature s) = ''1.2''")
          case v: True
          from v True Inr dec good nf Cons.IH [of "acc @ [s]" w] show ?thesis
            by (simp add: snapshots_Cons accepted_def skipped_log_def split: option.splits)
        next
          case v: False
          let ?w = "emit (Logged (UnknownVersionIn (Name fi) (Version (Signature s)))) w"
          have same: "fails env ?w = fails env w" "\<And>xs. snapshots env ?w xs = snapshots env w xs"
            "entry_result env ?w = entry_result env w"
            using fails_world snapshots_world entry_result_world by blast+
          note ih = Cons.IH [of acc ?w, unfolded same]
          from v True Inr dec good nf ih show ?thesis
            by (simp add: snapshots_Cons accepted_def skipped_log_def emit_def
                  split: option.splits)
        qed
      qed
    qed
  qed
qed

lemma accepted_append: "accepted (xs @ ys) = accepted xs @ accepted ys"
  by (simp add: accepted_def)

lemma set_accepted_snapshots:
  "set (accepted (snapshots env w fis)) =
     {s. \<exists>fi\<in>set fis. IsRegular fi \<and> entry_result env w fi = Inr s
           \<and> Version (Signature s) = ''1.2''}"
proof (induction fis)
  case Nil
  show ?case by (simp add: snapshots_def accepted_def)
next
  case (Cons fi fis)
  have head: "set (accepted (case entry_result env w fi of Inr s \<Rightarrow> [(Name fi, s)] | Inl e \<Rightarrow> []))
      = {s. entry_result env w fi = Inr s \<and> Version (Signature s) = ''1.2''}"
    by (cases "entry_result env w fi") (auto simp: accepted_def)
  show ?case
  proof (cases "IsRegular fi")
    case True
    with Cons.IH head show ?thesis
      by (simp add: snapshots_Cons accepted_append) blast
  next
    case False
    with Cons.IH show ?thesis
      by (simp add: snapshots_Cons)
  qed
qed

text \<open>
  C4.  In replay mode on a cache directory that exists and can be listed, every regular entry
  is opened and decoded on its own.  When some regular entry cannot be opened or decoded, the
  run ends with the error of the first such entry of the listing, with no database call and
  the table as it is; the log has the lines of the mismatched entries before it.  Otherwise
  the run logs one line for each entry whose version is not 1.2 and passes the snapshots of all
  the other regular entries, in one call, to \<^verbatim>\<open>writeSummaries\<close>.  The snapshots passed are
  those of the regular entries of the directory that decode to version 1.2, whatever the order
  of the entries.
\<close>

theorem replay_skips_exactly_mismatched:
  "replay (env :: 'f env) \<and> dir_exists w \<and> ReadDir w = Inr fis \<longrightarrow>
     (case find (fails env w) fis of
        Some bad \<Rightarrow>
          Main env w =
            (Inl (projl (entry_result env w bad)),
             w\<lparr>trace := trace w
                  @ skipped_log (snapshots env w (takeWhile (\<lambda>fi. \<not> fails env w fi) fis))\<rparr>)
      | None \<Rightarrow>
          Main env w =
            writeSummaries env (accepted (snapshots env w fis))
              (w\<lparr>trace := trace w @ skipped_log (snapshots env w fis)
                    @ [Logged (Replaying (int (length (accepted (snapshots env w fis)))))]\<rparr>))
     \<and> set (accepted (snapshots env w fis)) =
         {s. \<exists>fi\<in>set (files w). IsRegular fi \<and> entry_result env w fi = Inr s
               \<and> Version (Signature s) = ''1.2''}
     \<and> ((\<exists>fi\<in>set (files w). fails env w fi) \<longrightarrow>
          (\<exists>e w' (snaps :: (string \<times> 'f Summary) list). Main env w = (Inl e, w') \<and> scout w' = scout w
              \<and> trace w' = trace w @ skipped_log snaps))"
proof (intro impI)
  assume a: "replay env \<and> dir_exists w \<and> ReadDir w = Inr fis"
  then have fis: "set fis = set (files w)"
    using ReadDir_set by blast
  from a have main: "Main env w =
      (case replay_files env fis [] w of
         (Inl err, w') \<Rightarrow> (Inl err, w')
       | (Inr summaries, w') \<Rightarrow>
           writeSummaries env summaries (emit (Logged (Replaying (int (length summaries)))) w'))"
    by (simp add: Main_def replayFromCache_def)
  have run: "(case find (fails env w) fis of
        Some bad \<Rightarrow>
          Main env w =
            (Inl (projl (entry_result env w bad)),
             w\<lparr>trace := trace w
                  @ skipped_log (snapshots env w (takeWhile (\<lambda>fi. \<not> fails env w fi) fis))\<rparr>)
      | None \<Rightarrow>
          Main env w =
            writeSummaries env (accepted (snapshots env w fis))
              (w\<lparr>trace := trace w @ skipped_log (snapshots env w fis)
                    @ [Logged (Replaying (int (length (accepted (snapshots env w fis)))))]\<rparr>))"
    unfolding main replay_files_run
    by (simp add: emit_def split: option.splits)
  have abort: "\<exists>e w' (snaps :: (string \<times> 'f Summary) list). Main env w = (Inl e, w') \<and> scout w' = scout w
              \<and> trace w' = trace w @ skipped_log snaps"
    if "\<exists>fi\<in>set (files w). fails env w fi"
  proof -
    from that fis obtain bad where "find (fails env w) fis = Some bad"
      by (cases "find (fails env w) fis") (auto simp: find_None_iff)
    with run have "Main env w =
        (Inl (projl (entry_result env w bad)),
         w\<lparr>trace := trace w
              @ skipped_log (snapshots env w (takeWhile (\<lambda>fi. \<not> fails env w fi) fis))\<rparr>)"
      by simp
    moreover have "scout (w\<lparr>trace := trace w
              @ skipped_log (snapshots env w (takeWhile (\<lambda>fi. \<not> fails env w fi) fis))\<rparr>) = scout w"
      "trace (w\<lparr>trace := trace w
              @ skipped_log (snapshots env w (takeWhile (\<lambda>fi. \<not> fails env w fi) fis))\<rparr>)
        = trace w @ skipped_log (snapshots env w (takeWhile (\<lambda>fi. \<not> fails env w fi) fis))"
      by simp_all
    ultimately show ?thesis
      by blast
  qed
  from run abort set_accepted_snapshots [of env w fis] fis
  show "(case find (fails env w) fis of
        Some bad \<Rightarrow>
          Main env w =
            (Inl (projl (entry_result env w bad)),
             w\<lparr>trace := trace w
                  @ skipped_log (snapshots env w (takeWhile (\<lambda>fi. \<not> fails env w fi) fis))\<rparr>)
      | None \<Rightarrow>
          Main env w =
            writeSummaries env (accepted (snapshots env w fis))
              (w\<lparr>trace := trace w @ skipped_log (snapshots env w fis)
                    @ [Logged (Replaying (int (length (accepted (snapshots env w fis)))))]\<rparr>))
     \<and> set (accepted (snapshots env w fis)) =
         {s. \<exists>fi\<in>set (files w). IsRegular fi \<and> entry_result env w fi = Inr s
               \<and> Version (Signature s) = ''1.2''}
     \<and> ((\<exists>fi\<in>set (files w). fails env w fi) \<longrightarrow>
          (\<exists>e w' (snaps :: (string \<times> 'f Summary) list). Main env w = (Inl e, w') \<and> scout w' = scout w
              \<and> trace w' = trace w @ skipped_log snaps))"
    by simp
qed

lemmas replay_defs = entry_result_def fails_def snapshots_def accepted_def skipped_log_def
  os_Open_def entry_def replay_env_def

lemma mixed_listing:
  "ReadDir mixed_cache =
     Inr [entry ''1735689600.json'' (payload ''1.2''), entry ''1735690500.json'' (payload ''1.1''),
          \<lparr>Name = ''old'', IsRegular = False, ModTime = t0, Content = [], OpenErr = None\<rparr>]"
  by (simp add: ReadDir_def mixed_cache_def empty_world_def entry_def)

lemma broken_listing:
  "ReadDir broken_cache =
     Inr [entry ''1735689600.json'' (payload ''1.1''),
          entry ''1735690500.json'' (take 20 (payload ''1.2''))]"
  by (simp add: ReadDir_def broken_cache_def empty_world_def entry_def)

lemmas decode_defs = Decode_def readValue.simps feed_defs Let_def

theorem replay_skips_exactly_mismatched_witness:
  "Main replay_env mixed_cache =
     (Inr (), mixed_cache
        \<lparr>trace := [Logged (UnknownVersionIn ''1735690500.json'' ''1.1''), Logged (Replaying 1),
                   DbConnect, DbExecSchema, DbPrepare, TxBegin, TxCommit, Logged (Added 0 0),
                   DbClose]\<rparr>)
   \<and> Main replay_env broken_cache =
     (Inl (DecodeFileError ''1735690500.json'' (ReadError ErrUnexpectedEOF)),
      broken_cache\<lparr>trace := [Logged (UnknownVersionIn ''1735689600.json'' ''1.1'')]\<rparr>)"
proof -
  let ?good = "entry ''1735689600.json'' (payload ''1.2'')"
  let ?older = "entry ''1735690500.json'' (payload ''1.1'')"
  let ?dir = "\<lparr>Name = ''old'', IsRegular = False, ModTime = t0, Content = [], OpenErr = None\<rparr>"
  let ?cut = "entry ''1735690500.json'' (take 20 (payload ''1.2''))"
  let ?old11 = "entry ''1735689600.json'' (payload ''1.1'')"
  have r: "replay replay_env" "dir_exists mixed_cache" "dir_exists broken_cache"
    by (simp_all add: replay_env_def feed_defs mixed_cache_def broken_cache_def)
  have e1: "entry_result replay_env mixed_cache ?good = Inr (versioned ''1.2'')"
    "entry_result replay_env mixed_cache ?older = Inr (versioned ''1.1'')"
    by (simp_all add: replay_defs decode_defs)
  have e2: "entry_result replay_env broken_cache ?old11 = Inr (versioned ''1.1'')"
    "entry_result replay_env broken_cache ?cut
       = Inl (DecodeFileError ''1735690500.json'' (ReadError ErrUnexpectedEOF))"
    by (simp_all add: replay_defs decode_defs)
  have reg: "IsRegular ?good" "IsRegular ?older" "\<not> IsRegular ?dir" "IsRegular ?cut" "IsRegular ?old11"
    "Name ?good = ''1735689600.json''" "Name ?older = ''1735690500.json''"
    "Name ?cut = ''1735690500.json''" "Name ?old11 = ''1735689600.json''"
    by (simp_all add: entry_def)
  from replay_skips_exactly_mismatched [of replay_env mixed_cache "[?good, ?older, ?dir]"]
    r mixed_listing
  have "case find (fails replay_env mixed_cache) [?good, ?older, ?dir] of
        Some bad \<Rightarrow>
          Main replay_env mixed_cache =
            (Inl (projl (entry_result replay_env mixed_cache bad)),
             mixed_cache\<lparr>trace := trace mixed_cache
                  @ skipped_log (snapshots replay_env mixed_cache
                      (takeWhile (\<lambda>fi. \<not> fails replay_env mixed_cache fi) [?good, ?older, ?dir]))\<rparr>)
      | None \<Rightarrow>
          Main replay_env mixed_cache =
            writeSummaries replay_env (accepted (snapshots replay_env mixed_cache [?good, ?older, ?dir]))
              (mixed_cache\<lparr>trace := trace mixed_cache
                    @ skipped_log (snapshots replay_env mixed_cache [?good, ?older, ?dir])
                    @ [Logged (Replaying (int (length (accepted
                         (snapshots replay_env mixed_cache [?good, ?older, ?dir])))))]\<rparr>)"
    by blast
  with e1 reg have "Main replay_env mixed_cache =
      writeSummaries replay_env [versioned ''1.2'']
        (mixed_cache\<lparr>trace := [Logged (UnknownVersionIn ''1735690500.json'' ''1.1''),
                                  Logged (Replaying 1)]\<rparr>)"
    by (simp add: fails_def snapshots_def accepted_def skipped_log_def versioned_def
          mixed_cache_def empty_world_def)
  then have first: "Main replay_env mixed_cache =
     (Inr (), mixed_cache
        \<lparr>trace := [Logged (UnknownVersionIn ''1735690500.json'' ''1.1''), Logged (Replaying 1),
                   DbConnect, DbExecSchema, DbPrepare, TxBegin, TxCommit, Logged (Added 0 0),
                   DbClose]\<rparr>)"
    by (simp add: run_defs replay_env_def feed_defs mixed_cache_def)
  from replay_skips_exactly_mismatched [of replay_env broken_cache "[?old11, ?cut]"]
    r broken_listing
  have "case find (fails replay_env broken_cache) [?old11, ?cut] of
        Some bad \<Rightarrow>
          Main replay_env broken_cache =
            (Inl (projl (entry_result replay_env broken_cache bad)),
             broken_cache\<lparr>trace := trace broken_cache
                  @ skipped_log (snapshots replay_env broken_cache
                      (takeWhile (\<lambda>fi. \<not> fails replay_env broken_cache fi) [?old11, ?cut]))\<rparr>)
      | None \<Rightarrow>
          Main replay_env broken_cache =
            writeSummaries replay_env (accepted (snapshots replay_env broken_cache [?old11, ?cut]))
              (broken_cache\<lparr>trace := trace broken_cache
                    @ skipped_log (snapshots replay_env broken_cache [?old11, ?cut])
                    @ [Logged (Replaying (int (length (accepted
                         (snapshots replay_env broken_cache [?old11, ?cut])))))]\<rparr>)"
    by blast
  with e2 reg have second: "Main replay_env broken_cache =
     (Inl (DecodeFileError ''1735690500.json'' (ReadError ErrUnexpectedEOF)),
      broken_cache\<lparr>trace := [Logged (UnknownVersionIn ''1735689600.json'' ''1.1'')]\<rparr>)"
    by (simp add: fails_def snapshots_def accepted_def skipped_log_def versioned_def
          broken_cache_def empty_world_def)
  from first second show ?thesis
    by simp
qed

end
